theory Spec2Isabelle
  imports Main "HOL-Library.Word" "HOL-Library.Char_ord" "HOL-Library.List_Lexorder"
begin

section \<open>Strings and numbers of the Go runtime used by the supervisor\<close>






definition HasSuffix :: "string \<Rightarrow> string \<Rightarrow> bool" where
  "HasSuffix s suf = (length suf \<le> length s \<and> drop (length s - length suf) s = suf)"


definition isDigit :: "char \<Rightarrow> bool" where
  "isDigit c = (c \<in> set ''0123456789'')"

definition digitVal :: "char \<Rightarrow> nat" where
  "digitVal c = (of_char c :: nat) - 48"

datatype num_error = ErrSyntax | ErrRange

definition maxUint64 :: nat where
  "maxUint64 = 18446744073709551615"

definition uint64 :: "nat \<Rightarrow> nat" where
  "uint64 n = n mod 18446744073709551616"

text \<open>
  \<open>strconv.ParseUint(s, 10, 64)\<close>: the digit loop of the Go library with its two exits,
  a syntax error (value 0) at the first byte that is not a decimal digit and a range error
  (value \<open>maxUint64\<close>) as soon as the accumulated number leaves 64 bits. The loop reads
  left to right, so a range error hides a later syntax error.
\<close>

fun parseUintLoop :: "nat \<Rightarrow> string \<Rightarrow> nat \<times> num_error option" where
  "parseUintLoop n [] = (n, None)"
| "parseUintLoop n (c # cs) =
     (if \<not> isDigit c then (0, Some ErrSyntax)
      else if n \<ge> maxUint64 div 10 + 1 then (maxUint64, Some ErrRange)
      else if uint64 (n * 10 + digitVal c) < n * 10 \<or> uint64 (n * 10 + digitVal c) > maxUint64
        then (maxUint64, Some ErrRange)
      else parseUintLoop (uint64 (n * 10 + digitVal c)) cs)"

definition ParseUint :: "string \<Rightarrow> nat \<times> num_error option" where
  "ParseUint s = (if s = [] then (0, Some ErrSyntax) else parseUintLoop 0 s)"

section \<open>Maximum memory: \<open>parseMemoryString\<close>\<close>



text \<open>The number a string of decimal digits denotes (the specification's reading).\<close>

definition decValue :: "string \<Rightarrow> nat" where
  "decValue ds = foldl (\<lambda>n c. n * 10 + digitVal c) 0 ds"


section \<open>The data model of the supervisor\<close>

datatype ServerStatus =
  StatusStopped | StatusStarting | StatusRunning | StatusStopping
  | StatusCrashed | StatusRestarting | StatusDownloading | StatusInstalling

datatype EventType =
  EventInfo | EventWarning | EventError | EventPlayerJoin | EventPlayerLeave
  | EventChat | EventCommand | EventBackup | EventRestart

text \<open>A reading of the wall clock (\<open>time.Now()\<close>), in seconds.\<close>

type_synonym time = nat

text \<open>
  A \<open>float64\<close> is kept symbolic: the literal \<open>20.0\<close> of \<open>New\<close>, or the number
  \<open>strconv.ParseFloat\<close> yields for a text (its error is discarded by the caller).
\<close>

datatype float64 = Float20 | ParseFloat string

text \<open>An \<open>error\<close> is its message.\<close>

type_synonym error = string

record Config =
  RamMin :: string
  RamMax :: string
  Port :: int
  ServerDir :: string
  JavaPath :: string
  JavaArgs :: string
  ModpackID :: string
  ModpackVersion :: string
  AutoRestart :: bool
  BackupEnabled :: bool
  BackupInterval :: int
  BackupDir :: string
  MaxBackups :: int

record Player =
  Name :: string
  UUID :: string
  JoinedAt :: time
  IPAddress :: string

record ServerEvent =
  Time :: time
  Type :: EventType
  Message :: string

text \<open>
  \<open>ServerStats\<close> with the fields the lifecycle and the classifier write. The resource
  counters (memory, CPU, bytes and bandwidth), written by the sampling loop only, are
  left out. \<open>Restarts\<close> is a 64-bit \<open>int\<close>; \<open>PlayerCount\<close> and \<open>MaxPlayers\<close> hold what
  \<open>strconv.Atoi\<close> and \<open>len\<close> return, which is within 64 bits.
\<close>

record ServerStats =
  Status :: ServerStatus
  StartTime :: time
  Uptime :: nat
  Restarts :: "64 word"
  TPS :: float64
  Players :: "Player list"
  PlayerCount :: int
  MaxPlayers :: int
  RecentEvents :: "ServerEvent list"

text \<open>
  The child process as the supervisor holds it: \<open>exec.Cmd\<close> with its \<open>Process\<close>
  (absent until the process is spawned), and the write end of the child's standard input.
  A write to a pipe whose other end is closed fails.
\<close>

record Process =
  Pid :: nat
  Killed :: bool

record Cmd =
  Dir :: string
  Proc :: "Process option"

record Pipe =
  Broken :: bool
  Written :: "string list"

record Manager =
  serverDir :: string
  backupDir :: string
  maxBackups :: int

datatype stream = Stdout | Stderr

text \<open>The goroutines the supervisor launches with \<open>go\<close>.\<close>

datatype goroutine =
  GoReadOutput stream | GoMonitorProcess | GoUpdateStatsLoop | GoRequestTPSLoop
  | GoBackupScheduler | GoRestart

text \<open>
  \<open>Server\<close>. A buffered channel is the list of the values it holds, oldest first; the
  capacities are those of \<open>New\<close>. Two fields are not fields of the Go struct: \<open>clock\<close>
  is the wall clock (\<open>time.Now()\<close> reads it, \<open>time.Sleep\<close> and blocking advance it), and
  \<open>launched\<close> lists the goroutines started so far, in order.
\<close>

record Server =
  config :: Config
  cmd :: "Cmd option"
  stdin :: "Pipe option"
  stats :: ServerStats
  outputChan :: "string list"
  eventChan :: "ServerEvent list"
  backupMgr :: "Manager option"
  clock :: time
  launched :: "goroutine list"

definition outputChanCap :: nat where
  "outputChanCap = 1000"

definition eventChanCap :: nat where
  "eventChanCap = 100"

definition NewManager :: "string \<Rightarrow> string \<Rightarrow> int \<Rightarrow> Manager" where
  "NewManager sd bd mb = \<lparr>serverDir = sd, backupDir = bd, maxBackups = mb\<rparr>"

definition New :: "Config \<Rightarrow> time \<Rightarrow> Server" where
  "New cfg now =
     \<lparr>config = cfg, cmd = None, stdin = None,
      stats = \<lparr>Status = StatusStopped, StartTime = 0, Uptime = 0, Restarts = 0, TPS = Float20,
               Players = [], PlayerCount = 0, MaxPlayers = 20, RecentEvents = []\<rparr>,
      outputChan = [], eventChan = [],
      backupMgr = (if BackupEnabled cfg
                   then Some (NewManager (ServerDir cfg) (BackupDir cfg) (MaxBackups cfg)) else None),
      clock = now, launched = []\<rparr>"

definition GetStats :: "Server \<Rightarrow> ServerStats" where
  "GetStats s =
     (if Status (stats s) = StatusRunning
      then (stats s)\<lparr>Uptime := clock s - StartTime (stats s)\<rparr>
      else stats s)"

definition Sleep :: "nat \<Rightarrow> Server \<Rightarrow> Server" where
  "Sleep d s = s\<lparr>clock := clock s + d\<rparr>"

subsection \<open>Helper functions of the supervisor\<close>

definition updateStatus :: "ServerStatus \<Rightarrow> Server \<Rightarrow> Server" where
  "updateStatus st s = s\<lparr>stats := (stats s)\<lparr>Status := st\<rparr>\<rparr>"

text \<open>
  \<open>addEvent\<close>: append to the log, drop the oldest entry beyond 100, then a
  non-blocking send on the event channel (the \<open>select\<close> with an empty \<open>default\<close>).
\<close>

definition trimEvents :: "ServerEvent list \<Rightarrow> ServerEvent list" where
  "trimEvents es = (if length es > 100 then tl es else es)"

definition trySend :: "nat \<Rightarrow> 'a \<Rightarrow> 'a list \<Rightarrow> 'a list" where
  "trySend cap x ch = (if length ch < cap then ch @ [x] else ch)"

definition addEvent :: "EventType \<Rightarrow> string \<Rightarrow> Server \<Rightarrow> Server" where
  "addEvent eventType message s =
     (let event = \<lparr>Time = clock s, Type = eventType, Message = message\<rparr>
      in s\<lparr>stats := (stats s)\<lparr>RecentEvents := trimEvents (RecentEvents (stats s) @ [event])\<rparr>,
            eventChan := trySend eventChanCap event (eventChan s)\<rparr>)"

definition addPlayer :: "string \<Rightarrow> Server \<Rightarrow> Server" where
  "addPlayer name s =
     (if \<exists>p \<in> set (Players (stats s)). Name p = name then s
      else let ps = Players (stats s) @ [\<lparr>Name = name, UUID = [], JoinedAt = clock s, IPAddress = []\<rparr>]
           in s\<lparr>stats := (stats s)\<lparr>Players := ps, PlayerCount := int (length ps)\<rparr>\<rparr>)"

fun removeFirst :: "string \<Rightarrow> Player list \<Rightarrow> Player list" where
  "removeFirst name [] = []"
| "removeFirst name (p # ps) = (if Name p = name then ps else p # removeFirst name ps)"

definition removePlayer :: "string \<Rightarrow> Server \<Rightarrow> Server" where
  "removePlayer name s =
     (let ps = removeFirst name (Players (stats s))
      in s\<lparr>stats := (stats s)\<lparr>Players := ps, PlayerCount := int (length ps)\<rparr>\<rparr>)"

fun updateFirst :: "string \<Rightarrow> (Player \<Rightarrow> Player) \<Rightarrow> Player list \<Rightarrow> Player list" where
  "updateFirst name f [] = []"
| "updateFirst name f (p # ps) = (if Name p = name then f p # ps else p # updateFirst name f ps)"

definition updatePlayerUUID :: "string \<Rightarrow> string \<Rightarrow> Server \<Rightarrow> Server" where
  "updatePlayerUUID name uuid s =
     s\<lparr>stats := (stats s)\<lparr>Players := updateFirst name (\<lambda>p. p\<lparr>UUID := uuid\<rparr>) (Players (stats s))\<rparr>\<rparr>"

definition updatePlayerIP :: "string \<Rightarrow> string \<Rightarrow> Server \<Rightarrow> Server" where
  "updatePlayerIP name ip s =
     s\<lparr>stats := (stats s)\<lparr>Players := updateFirst name (\<lambda>p. p\<lparr>IPAddress := ip\<rparr>) (Players (stats s))\<rparr>\<rparr>"

subsection \<open>\<open>SendCommand\<close>\<close>

text \<open>\<open>fmt.Fprintln\<close> on the standard-input pipe: the command and a newline, or an error.\<close>

definition Fprintln :: "Pipe \<Rightarrow> string \<Rightarrow> Pipe \<times> error option" where
  "Fprintln p text =
     (if Broken p then (p, Some ''write: broken pipe'')
      else (p\<lparr>Written := Written p @ [text @ [CHR 0x0A]]\<rparr>, None))"

definition SendCommand :: "string \<Rightarrow> Server \<Rightarrow> Server \<times> error option" where
  "SendCommand command s =
     (case stdin s of
        None \<Rightarrow> (s, Some ''server not running'')
      | Some p \<Rightarrow>
          (case Fprintln p command of
             (p', Some err) \<Rightarrow> (s\<lparr>stdin := Some p'\<rparr>, Some (''failed to send command: '' @ err))
           | (p', None) \<Rightarrow>
               (let s' = s\<lparr>stdin := Some p'\<rparr>
                in if command \<noteq> ''forge tps''
                   then (addEvent EventCommand (''Executed: '' @ command) s', None)
                   else (s', None))))"

text \<open>The configuration the command line builds when no flag is given.\<close>

definition defaultConfig :: Config where
  "defaultConfig =
     \<lparr>RamMin = ''1G'', RamMax = ''4G'', Port = 25565, ServerDir = ''./server'', JavaPath = ''java'',
      JavaArgs = [], ModpackID = [], ModpackVersion = ''latest'', AutoRestart = True,
      BackupEnabled = False, BackupInterval = 60, BackupDir = ''./backups'', MaxBackups = 10\<rparr>"

text \<open>A supervisor with a fresh standard-input pipe attached.\<close>

definition attached :: "Server \<Rightarrow> Server" where
  "attached s = s\<lparr>stdin := Some \<lparr>Broken = False, Written = []\<rparr>\<rparr>"

section \<open>The output classifier\<close>

subsection \<open>Regular expressions\<close>

text \<open>
  The eight patterns of the classifier use literals, character classes, the greedy
  \<open>+\<close>, the lazy \<open>.*?\<close> and capture groups that are not nested. A pattern is a list of
  items: one character of a class, a greedy or a lazy star of a class, and the two group
  brackets. The matcher is a backtracking one, which gives the leftmost-first match of
  Go's \<open>regexp\<close> package. Classes are over bytes; \<open>.\<close> is any byte but the newline.
\<close>

datatype cls = AnyChar | OneOf string

fun clsMatch :: "cls \<Rightarrow> char \<Rightarrow> bool" where
  "clsMatch AnyChar c = (c \<noteq> CHR 0x0A)"
| "clsMatch (OneOf cs) c = (c \<in> set cs)"

datatype item = Chr cls | StarG cls | StarL cls | Open | Close

text \<open>
  The captures while matching: the groups closed so far, and the text of the group that is
  open, if one is.
\<close>

type_synonym caps = "string list \<times> string option"

fun push :: "char \<Rightarrow> caps \<Rightarrow> caps" where
  "push c (gs, None) = (gs, None)"
| "push c (gs, Some g) = (gs, Some (g @ [c]))"

fun openGroup :: "caps \<Rightarrow> caps" where
  "openGroup (gs, cur) = (gs, Some [])"

fun closeGroup :: "caps \<Rightarrow> caps" where
  "closeGroup (gs, None) = (gs, None)"
| "closeGroup (gs, Some g) = (gs @ [g], None)"

fun rmatch :: "item list \<Rightarrow> string \<Rightarrow> caps \<Rightarrow> (string list \<times> string) option" where
  "rmatch [] inp st = Some (fst st, inp)"
| "rmatch (Chr c # r) [] st = None"
| "rmatch (Chr c # r) (x # xs) st = (if clsMatch c x then rmatch r xs (push x st) else None)"
| "rmatch (StarG c # r) [] st = rmatch r [] st"
| "rmatch (StarG c # r) (x # xs) st =
     (if clsMatch c x
      then (case rmatch (StarG c # r) xs (push x st) of
              Some res \<Rightarrow> Some res
            | None \<Rightarrow> rmatch r (x # xs) st)
      else rmatch r (x # xs) st)"
| "rmatch (StarL c # r) [] st = rmatch r [] st"
| "rmatch (StarL c # r) (x # xs) st =
     (case rmatch r (x # xs) st of
        Some res \<Rightarrow> Some res
      | None \<Rightarrow> (if clsMatch c x then rmatch (StarL c # r) xs (push x st) else None))"
| "rmatch (Open # r) inp st = rmatch r inp (openGroup st)"
| "rmatch (Close # r) inp st = rmatch r inp (closeGroup st)"

text \<open>The leftmost match: try every start, from the left.\<close>

fun findAt :: "item list \<Rightarrow> string \<Rightarrow> string list option" where
  "findAt re [] =
     (case rmatch re [] ([], None) of
        Some (gs, rest) \<Rightarrow> Some ([] # gs)
      | None \<Rightarrow> None)"
| "findAt re (x # xs) =
     (case rmatch re (x # xs) ([], None) of
        Some (gs, rest) \<Rightarrow> Some (take (length (x # xs) - length rest) (x # xs) # gs)
      | None \<Rightarrow> findAt re xs)"

text \<open>
  \<open>FindStringSubmatch\<close>: the whole match followed by the groups, or the empty (nil)
  slice when nothing matches. \<open>MatchString\<close>: whether something matches.
\<close>

definition FindStringSubmatch :: "item list \<Rightarrow> string \<Rightarrow> string list" where
  "FindStringSubmatch re inp = (case findAt re inp of None \<Rightarrow> [] | Some ms \<Rightarrow> ms)"

definition MatchString :: "item list \<Rightarrow> string \<Rightarrow> bool" where
  "MatchString re inp = (findAt re inp \<noteq> None)"

definition lit :: "string \<Rightarrow> item list" where
  "lit s = map (\<lambda>c. Chr (OneOf [c])) s"

definition plus :: "cls \<Rightarrow> item list" where
  "plus c = [Chr c, StarG c]"

definition group :: "item list \<Rightarrow> item list" where
  "group r = [Open] @ r @ [Close]"

definition digitCls :: cls where
  "digitCls = OneOf ''0123456789''"

definition wordCls :: cls where
  "wordCls = OneOf ''0123456789ABCDEFGHIJKLMNOPQRSTUVWXYZ_abcdefghijklmnopqrstuvwxyz''"

definition playerJoinRegex :: "item list" where
  "playerJoinRegex =
     lit ''[Server thread/INFO]'' @ [StarL AnyChar] @ lit '': '' @ group (plus wordCls)
     @ lit '' joined the game''"

definition playerLeaveRegex :: "item list" where
  "playerLeaveRegex =
     lit ''[Server thread/INFO]'' @ [StarL AnyChar] @ lit '': '' @ group (plus wordCls)
     @ lit '' left the game''"

definition playerListRegex :: "item list" where
  "playerListRegex =
     lit ''There are '' @ group (plus digitCls) @ lit '' of a max of '' @ group (plus digitCls)
     @ lit '' players online''"

definition tpsRegex :: "item list" where
  "tpsRegex = lit ''Mean TPS: '' @ group (plus (OneOf ''0123456789.''))"

definition doneRegex :: "item list" where
  "doneRegex =
     lit ''Done ('' @ plus (OneOf ''0123456789.'') @ lit ''s)! For help, type ''
     @ lit [CHR 0x22] @ lit ''help'' @ lit [CHR 0x22]"

definition chatRegex :: "item list" where
  "chatRegex = lit ''<'' @ group (plus wordCls) @ lit ''> '' @ group (plus AnyChar)"

definition uuidRegex :: "item list" where
  "uuidRegex =
     lit ''UUID of player '' @ group (plus wordCls) @ lit '' is ''
     @ group (plus (OneOf ''abcdef0123456789-''))"

definition ipRegex :: "item list" where
  "ipRegex =
     group (plus wordCls) @ lit ''[/''
     @ group (plus digitCls @ lit ''.'' @ plus digitCls @ lit ''.'' @ plus digitCls @ lit ''.''
              @ plus digitCls)
     @ lit '':'' @ plus digitCls @ lit ''] logged in''"

subsection \<open>\<open>strconv.Atoi\<close> and \<open>strings.Contains\<close>\<close>

definition maxInt64 :: int where
  "maxInt64 = 9223372036854775807"

text \<open>
  \<open>strconv.ParseInt(s, 10, 0)\<close> on a 64-bit platform: a sign, then \<open>ParseUint\<close>; a
  syntax error gives 0, a number out of range the nearest bound.
\<close>

definition ParseInt :: "string \<Rightarrow> int \<times> num_error option" where
  "ParseInt s =
     (if s = [] then (0, Some ErrSyntax)
      else let neg = (hd s = CHR ''-'');
               s' = (if hd s = CHR ''+'' \<or> hd s = CHR ''-'' then tl s else s);
               (un, err) = ParseUint s'
           in if err = Some ErrSyntax then (0, err)
              else if \<not> neg \<and> un \<ge> 9223372036854775808 then (maxInt64, Some ErrRange)
              else if neg \<and> un > 9223372036854775808 then (- maxInt64 - 1, Some ErrRange)
              else (if neg then - int un else int un, None))"

text \<open>The fast path of \<open>Atoi\<close>, for fewer than 19 bytes: no overflow is possible.\<close>

fun atoiLoop :: "int \<Rightarrow> string \<Rightarrow> int \<times> num_error option" where
  "atoiLoop n [] = (n, None)"
| "atoiLoop n (ch # cs) =
     (if \<not> isDigit ch then (0, Some ErrSyntax) else atoiLoop (n * 10 + int (digitVal ch)) cs)"

definition Atoi :: "string \<Rightarrow> int \<times> num_error option" where
  "Atoi s =
     (if 0 < length s \<and> length s < 19
      then let s' = (if hd s = CHR ''-'' \<or> hd s = CHR ''+'' then tl s else s)
           in if length s' < 1 then (0, Some ErrSyntax)
              else (case atoiLoop 0 s' of
                      (n, None) \<Rightarrow> (if hd s = CHR ''-'' then - n else n, None)
                    | (n, Some e) \<Rightarrow> (0, Some e))
      else ParseInt s)"

fun Contains :: "string \<Rightarrow> string \<Rightarrow> bool" where
  "Contains [] sub = (sub = [])"
| "Contains (x # xs) sub = (take (length sub) (x # xs) = sub \<or> Contains xs sub)"

subsection \<open>\<open>parseOutput\<close> and \<open>readOutput\<close>\<close>

definition parseOutput :: "string \<Rightarrow> Server \<Rightarrow> Server" where
  "parseOutput line s =
     (if MatchString doneRegex line
      then addEvent EventInfo ''Server started successfully!'' (updateStatus StatusRunning s)
      else if length (FindStringSubmatch playerJoinRegex line) > 1
      then (let playerName = FindStringSubmatch playerJoinRegex line ! 1
            in addEvent EventPlayerJoin (playerName @ '' joined the game'') (addPlayer playerName s))
      else if length (FindStringSubmatch playerLeaveRegex line) > 1
      then (let playerName = FindStringSubmatch playerLeaveRegex line ! 1
            in addEvent EventPlayerLeave (playerName @ '' left the game'') (removePlayer playerName s))
      else if length (FindStringSubmatch playerListRegex line) > 2
      then (let matches = FindStringSubmatch playerListRegex line;
                current = fst (Atoi (matches ! 1));
                maxPlayers = fst (Atoi (matches ! 2))
            in s\<lparr>stats := (stats s)\<lparr>PlayerCount := current, MaxPlayers := maxPlayers\<rparr>\<rparr>)
      else if length (FindStringSubmatch tpsRegex line) > 1
      then s\<lparr>stats := (stats s)\<lparr>TPS := ParseFloat (FindStringSubmatch tpsRegex line ! 1)\<rparr>\<rparr>
      else if length (FindStringSubmatch chatRegex line) > 2
      then (let matches = FindStringSubmatch chatRegex line
            in addEvent EventChat (''<'' @ matches ! 1 @ ''> '' @ matches ! 2) s)
      else if length (FindStringSubmatch ipRegex line) > 2
      then (let matches = FindStringSubmatch ipRegex line
            in updatePlayerIP (matches ! 1) (matches ! 2) s)
      else if length (FindStringSubmatch uuidRegex line) > 2
      then (let matches = FindStringSubmatch uuidRegex line
            in updatePlayerUUID (matches ! 1) (matches ! 2) s)
      else if Contains line ''Mean TPS:'' \<or> Contains line ''Mean tick time:'' then s
      else if Contains line ''[WARN]'' \<or> Contains line ''WARN]'' then addEvent EventWarning line s
      else if Contains line ''[ERROR]'' \<or> Contains line ''ERROR]'' then addEvent EventError line s
      else s)"

text \<open>
  \<open>readOutput\<close>: the loop over the lines of one pipe. A line comes with the time at which
  the scanner delivers it; \<open>scanner.Scan()\<close> blocks until then. The send on the output
  channel is the \<open>select\<close> with a \<open>default\<close> branch: when the channel is full the line is
  skipped.
\<close>

definition readLine :: "time \<times> string \<Rightarrow> Server \<Rightarrow> Server" where
  "readLine l s =
     (let s1 = s\<lparr>clock := max (clock s) (fst l)\<rparr>;
          s2 = s1\<lparr>outputChan := trySend outputChanCap (snd l) (outputChan s1)\<rparr>
      in parseOutput (snd l) s2)"

fun readOutput :: "(time \<times> string) list \<Rightarrow> Server \<Rightarrow> Server" where
  "readOutput [] s = s"
| "readOutput (l # ls) s = readOutput ls (readLine l s)"

text \<open>The consumer of the output channel takes everything the channel holds.\<close>

definition drain :: "Server \<Rightarrow> string list \<times> Server" where
  "drain s = (outputChan s, s\<lparr>outputChan := []\<rparr>)"

text \<open>A burst of 1001 lines: a thousand times \<open>a\<close>, then \<open>b\<close>.\<close>

definition burst :: "(time \<times> string) list" where
  "burst = replicate 1000 (0, ''a'') @ [(1, ''b'')]"

text \<open>A join line, and the supervisor after it has been classified at time 7.\<close>

definition joinLine :: string where
  "joinLine = ''[Server thread/INFO]: Steve joined the game''"

definition withSteve :: Server where
  "withSteve = parseOutput joinLine (New defaultConfig 7)"

text \<open>Two population reports; the second has a count of \<open>2^63\<close>.\<close>

definition listLine :: string where
  "listLine = ''There are 3 of a max of 20 players online''"

definition hugeListLine :: string where
  "hugeListLine = ''There are 9223372036854775808 of a max of 20 players online''"

section \<open>The lifecycle: \<open>Stop\<close>, \<open>Start\<close>, \<open>Restart\<close> and the exit monitor\<close>

text \<open>
  The lifecycle functions run while other goroutines and the child process change the shared
  state. Where a function sleeps or blocks, the model applies a state transformer taken from
  the environment, which stands for everything the rest of the system does meanwhile.
\<close>

text \<open>\<open>s.cmd.Process.Kill()\<close> under its guard \<open>s.cmd != nil && s.cmd.Process != nil\<close>.\<close>

definition killProcess :: "Server \<Rightarrow> Server" where
  "killProcess s =
     (case cmd s of
        None \<Rightarrow> s
      | Some c \<Rightarrow>
          (case Proc c of
             None \<Rightarrow> s
           | Some p \<Rightarrow> s\<lparr>cmd := Some (c\<lparr>Proc := Some (p\<lparr>Killed := True\<rparr>)\<rparr>)\<rparr>))"

text \<open>
  The \<open>select\<close> of \<open>Stop\<close>: either the waiting goroutine reports the exit after some
  seconds, or the 30-second timer fires first.
\<close>

datatype wait_result = Exited nat | TimedOut

record StopEnv =
  duringSettle :: "Server \<Rightarrow> Server"
  duringWait :: "Server \<Rightarrow> Server"
  waitResult :: wait_result

text \<open>
  The waiting goroutine of \<open>Stop\<close>: without a command there is nothing to wait for, and
  \<open>Wait\<close> on a command that was never started returns at once.
\<close>

definition stopWait :: "StopEnv \<Rightarrow> Server \<Rightarrow> wait_result" where
  "stopWait env s =
     (case cmd s of
        None \<Rightarrow> Exited 0
      | Some c \<Rightarrow> (case Proc c of None \<Rightarrow> Exited 0 | Some p \<Rightarrow> waitResult env))"

text \<open>\<open>Stop\<close> after its guard.\<close>

definition stopBody :: "StopEnv \<Rightarrow> Server \<Rightarrow> Server \<times> error option" where
  "stopBody env s =
     (let s1 = addEvent EventInfo ''Stopping server gracefully...'' (updateStatus StatusStopping s);
          s2 = (case SendCommand ''save-all'' s1 of
                  (t, Some err) \<Rightarrow> addEvent EventWarning ''Could not send save-all command'' t
                | (t, None) \<Rightarrow> t);
          s3 = Sleep 2 (duringSettle env s2);
          s4 = (case SendCommand ''stop'' s3 of
                  (t, Some err) \<Rightarrow>
                    killProcess (addEvent EventWarning ''Could not send stop command, forcing shutdown'' t)
                | (t, None) \<Rightarrow> t);
          s5 = (case stopWait env s4 of
                  Exited w \<Rightarrow>
                    addEvent EventInfo ''Server stopped gracefully'' (Sleep w (duringWait env s4))
                | TimedOut \<Rightarrow>
                    killProcess (addEvent EventWarning ''Server did not stop in time, forcing kill''
                      (Sleep 30 (duringWait env s4))))
      in (updateStatus StatusStopped s5, None))"

definition Stop :: "StopEnv \<Rightarrow> Server \<Rightarrow> Server \<times> error option" where
  "Stop env s =
     (if Status (stats s) \<noteq> StatusRunning \<and> Status (stats s) \<noteq> StatusStarting then (s, None)
      else stopBody env s)"

text \<open>
  What \<open>Start\<close> meets outside the supervisor: the results of the file-system steps, of the
  modpack client, of the pipes and of the spawn. \<open>copyLocalMods\<close> is given by the events it
  logs and the error it returns, \<open>findServerJar\<close> by its result.
\<close>

record StartEnv =
  mkdirErr :: "error option"
  downloadErr :: "error option"
  installErr :: "error option"
  localModsEvents :: "(EventType \<times> string) list"
  localModsErr :: "error option"
  serverJar :: "error + string"
  eulaErr :: "error option"
  propsErr :: "error option"
  stdoutErr :: "error option"
  stderrErr :: "error option"
  stdinErr :: "error option"
  spawnErr :: "error option"
  newPid :: nat

definition installModpack :: "StartEnv \<Rightarrow> Server \<Rightarrow> Server \<times> error option" where
  "installModpack env s =
     (let s1 = addEvent EventInfo (''Downloading modpack: '' @ ModpackID (config s))
                 (updateStatus StatusDownloading s)
      in case downloadErr env of
           Some err \<Rightarrow> (s1, Some (''failed to download modpack: '' @ err))
         | None \<Rightarrow>
             (let s2 = addEvent EventInfo ''Installing modpack...'' (updateStatus StatusInstalling s1)
              in case installErr env of
                   Some err \<Rightarrow> (s2, Some (''failed to install modpack: '' @ err))
                 | None \<Rightarrow> (addEvent EventInfo ''Modpack installed successfully'' s2, None)))"

definition copyLocalMods :: "StartEnv \<Rightarrow> Server \<Rightarrow> Server \<times> error option" where
  "copyLocalMods env s = (foldl (\<lambda>t (ty, msg). addEvent ty msg t) s (localModsEvents env), localModsErr env)"

text \<open>\<open>Start\<close> from the pipes on: the command exists, with no process yet.\<close>

definition spawn :: "StartEnv \<Rightarrow> Server \<Rightarrow> Server \<times> error option" where
  "spawn env s =
     (let c = \<lparr>Dir = ServerDir (config s), Proc = None\<rparr>;
          s1 = s\<lparr>cmd := Some c\<rparr>
      in case stdoutErr env of
           Some err \<Rightarrow> (s1, Some (''failed to create stdout pipe: '' @ err))
         | None \<Rightarrow>
      (case stderrErr env of
           Some err \<Rightarrow> (s1, Some (''failed to create stderr pipe: '' @ err))
         | None \<Rightarrow>
      (case stdinErr env of
           Some err \<Rightarrow> (s1\<lparr>stdin := None\<rparr>, Some (''failed to create stdin pipe: '' @ err))
         | None \<Rightarrow>
      (case spawnErr env of
           Some err \<Rightarrow>
             (s1\<lparr>stdin := Some \<lparr>Broken = True, Written = []\<rparr>\<rparr>, Some (''failed to start server: '' @ err))
         | None \<Rightarrow>
             (let s2 = s1\<lparr>stdin := Some \<lparr>Broken = False, Written = []\<rparr>,
                          cmd := Some (c\<lparr>Proc := Some \<lparr>Pid = newPid env, Killed = False\<rparr>\<rparr>)\<rparr>;
                  s3 = s2\<lparr>stats := (stats s2)\<lparr>StartTime := clock s2\<rparr>\<rparr>;
                  s4 = s3\<lparr>launched := launched s3
                          @ [GoReadOutput Stdout, GoReadOutput Stderr, GoMonitorProcess,
                             GoUpdateStatsLoop, GoRequestTPSLoop]
                          @ (if BackupEnabled (config s3) \<and> backupMgr s3 \<noteq> None
                             then [GoBackupScheduler] else [])\<rparr>
              in (addEvent EventInfo ''Server starting...'' s4, None))))))"

definition Start :: "StartEnv \<Rightarrow> Server \<Rightarrow> Server \<times> error option" where
  "Start env s =
     (let s1 = updateStatus StatusStarting s
      in case mkdirErr env of
           Some err \<Rightarrow> (s1, Some (''failed to create server directory: '' @ err))
         | None \<Rightarrow>
      (case (if ModpackID (config s1) \<noteq> [] then installModpack env s1 else (s1, None)) of
           (s2, Some err) \<Rightarrow>
             (addEvent EventError (''Modpack installation failed: '' @ err) s2,
              Some (''modpack installation failed: '' @ err))
         | (s2, None) \<Rightarrow>
      (let s3 = (case copyLocalMods env s2 of
                   (t, Some err) \<Rightarrow> addEvent EventWarning (''Local mods copy warning: '' @ err) t
                 | (t, None) \<Rightarrow> t)
       in case serverJar env of
            Inl err \<Rightarrow> (s3, Some (''failed to find server JAR: '' @ err))
          | Inr jar \<Rightarrow>
              (let s4 = (case eulaErr env of
                           Some err \<Rightarrow> addEvent EventWarning ''Could not auto-accept EULA'' s3
                         | None \<Rightarrow> s3);
                   s5 = (case propsErr env of
                           Some err \<Rightarrow>
                             addEvent EventWarning (''Could not configure server.properties: '' @ err) s4
                         | None \<Rightarrow> s4)
               in spawn env s5))))"

text \<open>
  \<open>Restart\<close>. The increment of \<open>Restarts\<close> is the \<open>++\<close> of a 64-bit integer.
\<close>

definition Restart :: "StopEnv \<Rightarrow> StartEnv \<Rightarrow> Server \<Rightarrow> Server \<times> error option" where
  "Restart stopEnv startEnv s =
     (let s1 = updateStatus StatusRestarting (addEvent EventRestart ''Restarting server...'' s);
          s2 = s1\<lparr>stats := (stats s1)\<lparr>Restarts := Restarts (stats s1) + 1\<rparr>\<rparr>
      in case Stop stopEnv s2 of
           (s3, Some err) \<Rightarrow> (s3, Some (''failed to stop server for restart: '' @ err))
         | (s3, None) \<Rightarrow> Start startEnv (Sleep 2 s3))"

text \<open>
  \<open>monitorProcess\<close>, from the moment \<open>s.cmd.Wait()\<close> returns: its argument is the error
  of \<open>Wait\<close> (none for a clean exit), and \<open>s\<close> is the state at that moment. The second
  argument is what the rest of the system does during the five seconds before the restart.
\<close>

definition monitorProcess :: "error option \<Rightarrow> (Server \<Rightarrow> Server) \<Rightarrow> Server \<Rightarrow> Server" where
  "monitorProcess waitErr duringDelay s =
     (case cmd s of
        None \<Rightarrow> s
      | Some c \<Rightarrow>
          if Status (stats s) = StatusStopping then updateStatus StatusStopped s
          else (case waitErr of
                  Some err \<Rightarrow>
                    (let s1 = addEvent EventError (''Server crashed: '' @ err)
                                (updateStatus StatusCrashed s)
                     in if AutoRestart (config s1)
                        then (let s2 = addEvent EventRestart ''Auto-restarting in 5 seconds...'' s1;
                                  s3 = Sleep 5 (duringDelay s2)
                              in if Status (stats s3) = StatusCrashed
                                 then s3\<lparr>launched := launched s3 @ [GoRestart]\<rparr>
                                 else s3)
                        else s1)
                | None \<Rightarrow> updateStatus StatusStopped s))"

text \<open>The environment in which every step of \<open>Start\<close> succeeds.\<close>

definition startOK :: StartEnv where
  "startOK =
     \<lparr>mkdirErr = None, downloadErr = None, installErr = None, localModsEvents = [],
      localModsErr = None, serverJar = Inr ''server.jar'', eulaErr = None, propsErr = None,
      stdoutErr = None, stderrErr = None, stdinErr = None, spawnErr = None, newPid = 4242\<rparr>"

text \<open>An environment of \<open>Stop\<close> in which nothing else touches the state.\<close>

definition quiet :: "wait_result \<Rightarrow> StopEnv" where
  "quiet r = \<lparr>duringSettle = (\<lambda>s. s), duringWait = (\<lambda>s. s), waitResult = r\<rparr>"

text \<open>A supervisor whose child has been started and has printed its ready marker.\<close>

definition doneLine :: string where
  "doneLine = ''[Server thread/INFO]: Done (3.5s)! For help, type '' @ [CHR 0x22] @ ''help'' @ [CHR 0x22]"

definition running :: Server where
  "running = parseOutput doneLine (fst (Start startOK (New defaultConfig 0)))"


text \<open>The last event of a \<open>Stop\<close> that began at time \<open>t\<close>, by the outcome of its wait.\<close>

definition stopFinalEvent :: "time \<Rightarrow> wait_result \<Rightarrow> ServerEvent" where
  "stopFinalEvent t r =
     (case r of
        Exited w \<Rightarrow> \<lparr>Time = t + 2 + w, Type = EventInfo, Message = ''Server stopped gracefully''\<rparr>
      | TimedOut \<Rightarrow> \<lparr>Time = t + 2 + 30, Type = EventWarning,
                       Message = ''Server did not stop in time, forcing kill''\<rparr>)"

section \<open>The backup engine\<close>

text \<open>
  The backup directory as the engine sees it: absent, or the list of its entries in the order
  \<open>os.ReadDir\<close> returns them, which is by file name (bytewise). An entry has what
  \<open>ListBackups\<close> reads: name, directory flag, size, modification time, and whether
  \<open>entry.Info()\<close> fails. A path is kept as the two arguments of \<open>filepath.Join\<close>.
\<close>

record DirEntry =
  EntryName :: string
  IsDir :: bool
  Size :: int
  ModTime :: time
  InfoErr :: bool

type_synonym dir = "DirEntry list option"

type_synonym path = "string \<times> string"

record BackupInfo =
  BackupName :: string
  BackupPath :: path
  BackupSize :: int
  CreatedAt :: time

record ServerEntry =
  SrvName :: string
  SrvIsDir :: bool
  HasLevelDat :: bool

datatype BackupError =
  MkdirFailed error | FindWorldDirsFailed error | NoWorldDirs | CreateFailed error
  | AddFailed path error | FinalizeFailed error | IndexOutOfRange

text \<open>
  What one \<open>CreateBackup\<close> call meets outside the engine: the results of the file-system
  steps, the formatted time of the call (\<open>time.Now().Format("2006-01-02_15-04-05")\<close>), the
  listing of the server directory, the size and modification time of the archive as written,
  and which removals fail.
\<close>

record BackupEnv =
  backupMkdirErr :: "error option"
  stamp :: string
  serverEntries :: "error + ServerEntry list"
  createErr :: "error option"
  zipErr :: "path \<Rightarrow> error option"
  closeErr :: "error option"
  written :: "int \<times> time"
  readDirErr :: "error option"
  removeErr :: "path \<Rightarrow> error option"

definition HasPrefix :: "string \<Rightarrow> string \<Rightarrow> bool" where
  "HasPrefix s pre = (take (length pre) s = pre)"

definition isArchive :: "DirEntry \<Rightarrow> bool" where
  "isArchive e = (\<not> IsDir e \<and> HasPrefix (EntryName e) ''backup_'' \<and> HasSuffix (EntryName e) ''.zip''
                  \<and> \<not> InfoErr e)"

definition backupInfo :: "Manager \<Rightarrow> DirEntry \<Rightarrow> BackupInfo" where
  "backupInfo m e =
     \<lparr>BackupName = EntryName e, BackupPath = (backupDir m, EntryName e), BackupSize = Size e,
      CreatedAt = ModTime e\<rparr>"

definition ListBackups :: "error option \<Rightarrow> Manager \<Rightarrow> dir \<Rightarrow> error + BackupInfo list" where
  "ListBackups rdErr m d =
     (case d of
        None \<Rightarrow> Inr []
      | Some es \<Rightarrow>
          (case rdErr of
             Some err \<Rightarrow> Inl err
           | None \<Rightarrow> Inr (map (backupInfo m) (filter isArchive es))))"

definition isWorldDir :: "ServerEntry \<Rightarrow> bool" where
  "isWorldDir e =
     (SrvIsDir e \<and>
      (SrvName e = ''world'' \<or> SrvName e = ''world_nether'' \<or> SrvName e = ''world_the_end''
       \<or> HasPrefix (SrvName e) ''world_'' \<or> HasPrefix (SrvName e) ''DIM'' \<or> HasLevelDat e))"

definition findWorldDirs :: "BackupEnv \<Rightarrow> Manager \<Rightarrow> error + path list" where
  "findWorldDirs env m =
     (case serverEntries env of
        Inl err \<Rightarrow> Inl err
      | Inr es \<Rightarrow> Inr (map (\<lambda>e. (serverDir m, SrvName e)) (filter isWorldDir es)))"

text \<open>
  \<open>sort.Slice\<close> on a slice of at most 12 elements is the insertion sort of the Go library:
  each element moves left while it is less than its left neighbour. \<open>sink\<close> works on the
  sorted prefix reversed, nearest neighbour first. (Beyond 12 elements the library's sort is
  not stable; it gives the same result when no two elements are equivalent.)
\<close>

fun sink :: "('a \<Rightarrow> 'a \<Rightarrow> bool) \<Rightarrow> 'a \<Rightarrow> 'a list \<Rightarrow> 'a list" where
  "sink lt x [] = [x]"
| "sink lt x (y # rs) = (if lt x y then y # sink lt x rs else x # y # rs)"

definition sortSlice :: "('a \<Rightarrow> 'a \<Rightarrow> bool) \<Rightarrow> 'a list \<Rightarrow> 'a list" where
  "sortSlice lt xs = rev (foldl (\<lambda>rs x. sink lt x rs) [] xs)"

definition After :: "BackupInfo \<Rightarrow> BackupInfo \<Rightarrow> bool" where
  "After a b = (CreatedAt a > CreatedAt b)"

text \<open>\<open>os.Remove\<close> of a file of the backup directory.\<close>

definition Remove :: "path \<Rightarrow> dir \<Rightarrow> dir" where
  "Remove p d = map_option (filter (\<lambda>e. EntryName e \<noteq> snd p)) d"

datatype cleanup_result = CleanupDone | CleanupFailed error | CleanupPanic

text \<open>
  \<open>cleanupOldBackups\<close>. The loop starts at index \<open>maxBackups\<close>: a negative maximum is an
  index out of range, a run-time panic. A removal that fails is reported on standard output
  and the loop goes on.
\<close>

definition cleanupOldBackups :: "BackupEnv \<Rightarrow> Manager \<Rightarrow> dir \<Rightarrow> dir \<times> cleanup_result" where
  "cleanupOldBackups env m d =
     (case ListBackups (readDirErr env) m d of
        Inl err \<Rightarrow> (d, CleanupFailed err)
      | Inr backups \<Rightarrow>
          if int (length backups) \<le> maxBackups m then (d, CleanupDone)
          else (let sorted = sortSlice After backups
                in if maxBackups m < 0 then (d, CleanupPanic)
                   else (foldl (\<lambda>d' b. case removeErr env (BackupPath b) of
                                          None \<Rightarrow> Remove (BackupPath b) d'
                                        | Some err \<Rightarrow> d')
                           d (drop (nat (maxBackups m)) sorted),
                         CleanupDone)))"

text \<open>\<open>os.MkdirAll\<close> and \<open>os.Create\<close> followed by the writes, on the backup directory.\<close>

definition mkdirAll :: "dir \<Rightarrow> dir" where
  "mkdirAll d = (case d of None \<Rightarrow> Some [] | Some es \<Rightarrow> Some es)"

definition writeFile :: "string \<Rightarrow> int \<times> time \<Rightarrow> dir \<Rightarrow> dir" where
  "writeFile name w d =
     map_option (\<lambda>es. insort_key EntryName
                        \<lparr>EntryName = name, IsDir = False, Size = fst w, ModTime = snd w, InfoErr = False\<rparr>
                        (filter (\<lambda>e. EntryName e \<noteq> name) es)) d"

fun firstZipErr :: "BackupEnv \<Rightarrow> path list \<Rightarrow> (path \<times> error) option" where
  "firstZipErr env [] = None"
| "firstZipErr env (w # ws) =
     (case zipErr env w of Some err \<Rightarrow> Some (w, err) | None \<Rightarrow> firstZipErr env ws)"

definition archiveName :: "BackupEnv \<Rightarrow> string" where
  "archiveName env = ''backup_'' @ stamp env @ ''.zip''"

definition CreateBackup :: "BackupEnv \<Rightarrow> Manager \<Rightarrow> dir \<Rightarrow> dir \<times> BackupError option" where
  "CreateBackup env m d =
     (case backupMkdirErr env of
        Some err \<Rightarrow> (d, Some (MkdirFailed err))
      | None \<Rightarrow>
     (let d1 = mkdirAll d
      in case findWorldDirs env m of
           Inl err \<Rightarrow> (d1, Some (FindWorldDirsFailed err))
         | Inr worldDirs \<Rightarrow>
     (if length worldDirs = 0 then (d1, Some NoWorldDirs)
      else case createErr env of
             Some err \<Rightarrow> (d1, Some (CreateFailed err))
           | None \<Rightarrow>
     (let d2 = writeFile (archiveName env) (written env) d1
      in case firstZipErr env worldDirs of
           Some (w, err) \<Rightarrow> (d2, Some (AddFailed w err))
         | None \<Rightarrow>
     (case closeErr env of
        Some err \<Rightarrow> (d2, Some (FinalizeFailed err))
      | None \<Rightarrow>
          (case cleanupOldBackups env m d2 of
             (d3, CleanupPanic) \<Rightarrow> (d3, Some IndexOutOfRange)
           | (d3, r) \<Rightarrow> (d3, None)))))))"

text \<open>
  An environment in which a backup succeeds: the server directory holds \<open>world\<close> and
  \<open>world_nether\<close>, and every step works.
\<close>

definition backupOK :: "string \<Rightarrow> int \<Rightarrow> time \<Rightarrow> BackupEnv" where
  "backupOK st sz mt =
     \<lparr>backupMkdirErr = None, stamp = st,
      serverEntries = Inr [\<lparr>SrvName = ''world'', SrvIsDir = True, HasLevelDat = True\<rparr>,
                           \<lparr>SrvName = ''world_nether'', SrvIsDir = True, HasLevelDat = False\<rparr>,
                           \<lparr>SrvName = ''server.properties'', SrvIsDir = False, HasLevelDat = False\<rparr>],
      createErr = None, zipErr = (\<lambda>p. None), closeErr = None, written = (sz, mt),
      readDirErr = None, removeErr = (\<lambda>p. None)\<rparr>"

definition keepTwo :: Manager where
  "keepTwo = NewManager ''./server'' ''./backups'' 2"

text \<open>The entry of an archive written in a given environment.\<close>

definition archiveEntry :: "BackupEnv \<Rightarrow> DirEntry" where
  "archiveEntry env =
     \<lparr>EntryName = archiveName env, IsDir = False, Size = fst (written env),
      ModTime = snd (written env), InfoErr = False\<rparr>"

text \<open>
  Three successful backups, an hour apart, and a third one during which no file can be
  removed.
\<close>

definition firstBackup :: BackupEnv where
  "firstBackup = backupOK ''2024-01-01_10-00-00'' 1000 36000"

definition secondBackup :: BackupEnv where
  "secondBackup = backupOK ''2024-01-01_11-00-00'' 2000 39600"

definition thirdBackup :: BackupEnv where
  "thirdBackup = backupOK ''2024-01-01_12-00-00'' 3000 43200"

definition thirdBackupLocked :: BackupEnv where
  "thirdBackupLocked = thirdBackup\<lparr>removeErr := (\<lambda>p. Some ''permission denied'')\<rparr>"

section \<open>Properties of \<open>parseMemoryString\<close>\<close>


lemma foldl_dec_ge: "foldl (\<lambda>n c. n * 10 + digitVal c) m cs \<ge> m"
proof (induction cs arbitrary: m)
  case Nil show ?case by simp
next
  case (Cons c cs)
  have "m \<le> m * 10 + digitVal c" by simp
  also have "\<dots> \<le> foldl (\<lambda>n c. n * 10 + digitVal c) (m * 10 + digitVal c) cs" by (rule Cons.IH)
  finally show ?case by simp
qed

lemma parseUintLoop_digits:
  "\<forall>c\<in>set ds. isDigit c \<Longrightarrow> foldl (\<lambda>n c. n * 10 + digitVal c) n ds \<le> maxUint64
   \<Longrightarrow> parseUintLoop n ds = (foldl (\<lambda>n c. n * 10 + digitVal c) n ds, None)"
proof (induction ds arbitrary: n)
  case Nil show ?case by simp
next
  case (Cons c cs)
  let ?m = "n * 10 + digitVal c"
  have le: "?m \<le> maxUint64"
    using foldl_dec_ge[of ?m cs] Cons.prems(2) by simp
  then have u: "uint64 ?m = ?m" by (simp add: uint64_def maxUint64_def)
  have cut: "\<not> n \<ge> maxUint64 div 10 + 1" using le by (simp add: maxUint64_def)
  have "parseUintLoop n (c # cs) = parseUintLoop ?m cs"
    using Cons.prems(1) u le cut by simp
  also have "\<dots> = (foldl (\<lambda>n c. n * 10 + digitVal c) ?m cs, None)"
    using Cons.prems by (intro Cons.IH) simp_all
  finally show ?case by simp
qed
















lemma ParseUint_digits:
  "ds \<noteq> [] \<Longrightarrow> \<forall>c\<in>set ds. isDigit c \<Longrightarrow> decValue ds \<le> maxUint64
   \<Longrightarrow> ParseUint ds = (decValue ds, None)"
  by (simp add: ParseUint_def decValue_def parseUintLoop_digits)









section \<open>Properties of \<open>SendCommand\<close>\<close>

lemma addEvent_fields:
  "config (addEvent t m s) = config s"
  "cmd (addEvent t m s) = cmd s"
  "stdin (addEvent t m s) = stdin s"
  "outputChan (addEvent t m s) = outputChan s"
  "backupMgr (addEvent t m s) = backupMgr s"
  "clock (addEvent t m s) = clock s"
  "launched (addEvent t m s) = launched s"
  "eventChan (addEvent t m s) = trySend eventChanCap \<lparr>Time = clock s, Type = t, Message = m\<rparr> (eventChan s)"
  "stats (addEvent t m s) = (stats s)\<lparr>RecentEvents :=
      trimEvents (RecentEvents (stats s) @ [\<lparr>Time = clock s, Type = t, Message = m\<rparr>])\<rparr>"
  by (simp_all add: addEvent_def Let_def)

lemma updateStatus_fields:
  "config (updateStatus st s) = config s"
  "cmd (updateStatus st s) = cmd s"
  "stdin (updateStatus st s) = stdin s"
  "outputChan (updateStatus st s) = outputChan s"
  "eventChan (updateStatus st s) = eventChan s"
  "backupMgr (updateStatus st s) = backupMgr s"
  "clock (updateStatus st s) = clock s"
  "launched (updateStatus st s) = launched s"
  "stats (updateStatus st s) = (stats s)\<lparr>Status := st\<rparr>"
  by (simp_all add: updateStatus_def)

lemma trimEvents_last: "last (trimEvents (es @ [e])) = e"
  by (cases es) (simp_all add: trimEvents_def)

lemma SendCommand_not_running: "stdin s = None \<Longrightarrow> SendCommand command s = (s, Some ''server not running'')"
  by (simp add: SendCommand_def)

lemma SendCommand_success:
  assumes "snd (SendCommand command s) = None"
  shows "\<exists>p. stdin s = Some p \<and> \<not> Broken p
     \<and> fst (SendCommand command s) =
         (if command \<noteq> ''forge tps''
          then addEvent EventCommand (''Executed: '' @ command) (s\<lparr>stdin := Some (p\<lparr>Written := Written p @ [command @ [CHR 0x0A]]\<rparr>)\<rparr>)
          else s\<lparr>stdin := Some (p\<lparr>Written := Written p @ [command @ [CHR 0x0A]]\<rparr>)\<rparr>)"
  using assms
  by (auto simp: SendCommand_def Fprintln_def split: option.splits if_splits)

text \<open>
  Claim C7. With no standard-input pipe attached, \<open>SendCommand\<close> returns the error
  "server not running" and the state is untouched: nothing is written. A successful
  \<open>SendCommand\<close> has written the command and a newline to the pipe; it has appended a
  Command event to the event log (which then drops its oldest entry beyond 100), unless the
  command is exactly \<open>forge tps\<close>, for which neither the log nor the event channel
  changes.
\<close>

theorem SendCommand_contract:
  "(stdin s = None \<longrightarrow> SendCommand command s = (s, Some ''server not running''))
   \<and> (snd (SendCommand command s) = None \<and> command \<noteq> ''forge tps'' \<longrightarrow>
        RecentEvents (stats (fst (SendCommand command s)))
          = trimEvents (RecentEvents (stats s)
              @ [\<lparr>Time = clock s, Type = EventCommand, Message = ''Executed: '' @ command\<rparr>])
        \<and> last (RecentEvents (stats (fst (SendCommand command s))))
          = \<lparr>Time = clock s, Type = EventCommand, Message = ''Executed: '' @ command\<rparr>)
   \<and> (snd (SendCommand command s) = None \<and> command = ''forge tps'' \<longrightarrow>
        RecentEvents (stats (fst (SendCommand command s))) = RecentEvents (stats s)
        \<and> eventChan (fst (SendCommand command s)) = eventChan s)
   \<and> (snd (SendCommand command s) = None \<longrightarrow>
        (\<exists>p. stdin s = Some p
           \<and> stdin (fst (SendCommand command s)) = Some (p\<lparr>Written := Written p @ [command @ [CHR 0x0A]]\<rparr>)))"
proof (intro conjI impI)
  show "SendCommand command s = (s, Some ''server not running'')" if "stdin s = None"
    using that by (rule SendCommand_not_running)
next
  assume a: "snd (SendCommand command s) = None \<and> command \<noteq> ''forge tps''"
  then obtain p where p: "fst (SendCommand command s) =
      addEvent EventCommand (''Executed: '' @ command) (s\<lparr>stdin := Some (p\<lparr>Written := Written p @ [command @ [CHR 0x0A]]\<rparr>)\<rparr>)"
    using SendCommand_success[of command s] by auto
  show "RecentEvents (stats (fst (SendCommand command s)))
          = trimEvents (RecentEvents (stats s)
              @ [\<lparr>Time = clock s, Type = EventCommand, Message = ''Executed: '' @ command\<rparr>])"
    by (simp add: p addEvent_fields)
  then show "last (RecentEvents (stats (fst (SendCommand command s))))
          = \<lparr>Time = clock s, Type = EventCommand, Message = ''Executed: '' @ command\<rparr>"
    by (simp add: trimEvents_last)
next
  assume a: "snd (SendCommand command s) = None \<and> command = ''forge tps''"
  then obtain p where p: "fst (SendCommand command s) =
      s\<lparr>stdin := Some (p\<lparr>Written := Written p @ [command @ [CHR 0x0A]]\<rparr>)\<rparr>"
    using SendCommand_success[of command s] by auto
  show "RecentEvents (stats (fst (SendCommand command s))) = RecentEvents (stats s)"
    by (simp add: p)
  show "eventChan (fst (SendCommand command s)) = eventChan s"
    by (simp add: p)
next
  assume a: "snd (SendCommand command s) = None"
  then obtain p where "stdin s = Some p" and "fst (SendCommand command s) =
         (if command \<noteq> ''forge tps''
          then addEvent EventCommand (''Executed: '' @ command) (s\<lparr>stdin := Some (p\<lparr>Written := Written p @ [command @ [CHR 0x0A]]\<rparr>)\<rparr>)
          else s\<lparr>stdin := Some (p\<lparr>Written := Written p @ [command @ [CHR 0x0A]]\<rparr>)\<rparr>)"
    using SendCommand_success[of command s] by auto
  then show "\<exists>p. stdin s = Some p
           \<and> stdin (fst (SendCommand command s)) = Some (p\<lparr>Written := Written p @ [command @ [CHR 0x0A]]\<rparr>)"
    by (auto simp: addEvent_fields)
qed

theorem SendCommand_contract_witness:
  "SendCommand ''list'' (New defaultConfig 0) = (New defaultConfig 0, Some ''server not running'')
   \<and> last (RecentEvents (stats (fst (SendCommand ''list'' (attached (New defaultConfig 0))))))
       = \<lparr>Time = 0, Type = EventCommand, Message = ''Executed: list''\<rparr>
   \<and> RecentEvents (stats (fst (SendCommand ''forge tps'' (attached (New defaultConfig 0))))) = []
   \<and> stdin (fst (SendCommand ''forge tps'' (attached (New defaultConfig 0))))
       = Some \<lparr>Broken = False, Written = [''forge tps'' @ [CHR 0x0A]]\<rparr>"
proof -
  have n: "stdin (New defaultConfig 0) = None" by (simp add: New_def)
  have a: "snd (SendCommand ''list'' (attached (New defaultConfig 0))) = None"
    by (simp add: SendCommand_def attached_def Fprintln_def)
  have b: "snd (SendCommand ''forge tps'' (attached (New defaultConfig 0))) = None"
    by (simp add: SendCommand_def attached_def Fprintln_def)
  show ?thesis
    using SendCommand_contract[of "New defaultConfig 0" "''list''"]
      SendCommand_contract[of "attached (New defaultConfig 0)" "''list''"]
      SendCommand_contract[of "attached (New defaultConfig 0)" "''forge tps''"] n a b
    by (simp add: attached_def New_def trimEvents_def)
qed

section \<open>Properties of the classifier and of the reader loop\<close>

lemma addPlayer_fields:
  "config (addPlayer n s) = config s"
  "cmd (addPlayer n s) = cmd s"
  "stdin (addPlayer n s) = stdin s"
  "outputChan (addPlayer n s) = outputChan s"
  "eventChan (addPlayer n s) = eventChan s"
  "backupMgr (addPlayer n s) = backupMgr s"
  "clock (addPlayer n s) = clock s"
  "launched (addPlayer n s) = launched s"
  by (simp_all add: addPlayer_def Let_def)

lemma removePlayer_fields:
  "config (removePlayer n s) = config s"
  "cmd (removePlayer n s) = cmd s"
  "stdin (removePlayer n s) = stdin s"
  "outputChan (removePlayer n s) = outputChan s"
  "eventChan (removePlayer n s) = eventChan s"
  "backupMgr (removePlayer n s) = backupMgr s"
  "clock (removePlayer n s) = clock s"
  "launched (removePlayer n s) = launched s"
  by (simp_all add: removePlayer_def Let_def)

lemma updatePlayer_fields:
  "outputChan (updatePlayerIP n a s) = outputChan s"
  "outputChan (updatePlayerUUID n a s) = outputChan s"
  by (simp_all add: updatePlayerIP_def updatePlayerUUID_def)

lemma parseOutput_outputChan: "outputChan (parseOutput line s) = outputChan s"
  by (simp add: parseOutput_def Let_def addEvent_fields updateStatus_fields addPlayer_fields
      removePlayer_fields updatePlayer_fields)

lemma readLine_outputChan:
  "outputChan (readLine l s) = outputChan s @ take (outputChanCap - length (outputChan s)) [snd l]"
  by (simp add: readLine_def Let_def parseOutput_outputChan trySend_def)

lemma readOutput_outputChan:
  "outputChan (readOutput ls s) = outputChan s @ take (outputChanCap - length (outputChan s)) (map snd ls)"
proof (induction ls arbitrary: s)
  case Nil
  show ?case by simp
next
  case (Cons l ls)
  show ?case
  proof (cases "length (outputChan s) < outputChanCap")
    case True
    then obtain k where k: "outputChanCap - length (outputChan s) = Suc k"
      by (cases "outputChanCap - length (outputChan s)") auto
    then have k': "outputChanCap - length (outputChan (readLine l s)) = k"
      by (simp add: readLine_outputChan)
    show ?thesis
      using Cons.IH[of "readLine l s"] k unfolding k'
      by (simp add: readLine_outputChan)
  next
    case False
    then have z: "outputChanCap - length (outputChan s) = 0" by simp
    have same: "outputChan (readLine l s) = outputChan s"
      by (simp add: readLine_outputChan z)
    show ?thesis
      using Cons.IH[of "readLine l s"] by (simp add: same z)
  qed
qed

text \<open>
  Claim C1, as the code has it. \<open>readOutput\<close> is a total function: the loop handles every
  line and returns, whatever the channel holds, so the reader never blocks on the output
  channel. After the loop the channel holds what it held before, followed by the first lines
  sent, as many as there was room for. A consumer that drains a channel that was empty when
  the loop began observes the earliest 1000 lines; the lines after them are dropped.
\<close>

theorem readOutput_keeps_earliest:
  "outputChan (readOutput ls s)
     = outputChan s @ take (outputChanCap - length (outputChan s)) (map snd ls)
   \<and> (outputChan s = [] \<longrightarrow> fst (drain (readOutput ls s)) = take 1000 (map snd ls))"
  by (simp add: readOutput_outputChan drain_def outputChanCap_def)

theorem readOutput_keeps_earliest_witness:
  "fst (drain (readOutput burst (New defaultConfig 0))) = replicate 1000 ''a''"
proof -
  have "outputChan (New defaultConfig 0) = []" by (simp add: New_def)
  then show ?thesis
    using readOutput_keeps_earliest[of burst "New defaultConfig 0"]
    by (simp add: burst_def)
qed

text \<open>
  Claim C1 as stated fails: after a burst of 1001 lines into the empty channel, the consumer
  does not observe the most recent 1000 lines; the last line \<open>b\<close> is never observed.
\<close>

theorem readOutput_most_recent_counterexample:
  "length burst > 1000
   \<and> fst (drain (readOutput burst (New defaultConfig 0))) \<noteq> drop (length burst - 1000) (map snd burst)
   \<and> ''b'' \<notin> set (fst (drain (readOutput burst (New defaultConfig 0))))"
proof -
  have e: "outputChan (New defaultConfig 0) = []" by (simp add: New_def)
  have got: "fst (drain (readOutput burst (New defaultConfig 0))) = replicate 1000 ''a''"
    by (simp add: readOutput_outputChan drain_def outputChanCap_def e burst_def)
  have recent: "drop (length burst - 1000) (map snd burst) = replicate 999 ''a'' @ [''b'']"
    by (simp add: burst_def)
  have "last (replicate 1000 ''a'') \<noteq> last (replicate 999 ''a'' @ [''b''])" by simp
  then have "replicate 1000 ''a'' \<noteq> replicate 999 ''a'' @ [''b'']" by metis
  then show ?thesis by (simp add: got recent) (simp add: burst_def)
qed

subsection \<open>Join lines\<close>

lemmas re_defs = FindStringSubmatch_def MatchString_def lit_def plus_def group_def digitCls_def
  wordCls_def playerJoinRegex_def playerLeaveRegex_def playerListRegex_def tpsRegex_def
  doneRegex_def chatRegex_def uuidRegex_def ipRegex_def

lemma parseOutput_join:
  assumes "\<not> MatchString doneRegex line" "FindStringSubmatch playerJoinRegex line = [whole, name]"
  shows "parseOutput line s = addEvent EventPlayerJoin (name @ '' joined the game'') (addPlayer name s)"
  using assms by (simp add: parseOutput_def)

lemma addPlayer_present:
  "\<exists>p\<in>set (Players (stats s)). Name p = name \<Longrightarrow> addPlayer name s = s"
  by (simp add: addPlayer_def)

lemma addPlayer_distinct:
  "distinct (map Name (Players (stats s))) \<Longrightarrow> distinct (map Name (Players (stats (addPlayer name s))))"
  by (auto simp: addPlayer_def Let_def)

lemma removeFirst_names: "set (map Name (removeFirst name ps)) \<subseteq> set (map Name ps)"
  by (induction ps) auto

lemma removeFirst_distinct: "distinct (map Name ps) \<Longrightarrow> distinct (map Name (removeFirst name ps))"
proof (induction ps)
  case Nil then show ?case by simp
next
  case (Cons p ps)
  then show ?case using removeFirst_names[of name ps] by auto
qed

lemma updateFirst_names: "(\<And>p. Name (f p) = Name p) \<Longrightarrow> map Name (updateFirst name f ps) = map Name ps"
  by (induction ps) auto

lemma parseOutput_distinct:
  assumes "distinct (map Name (Players (stats s)))"
  shows "distinct (map Name (Players (stats (parseOutput line s))))"
proof -
  have a: "distinct (map Name (Players (stats (addPlayer n s))))" for n
    using assms by (rule addPlayer_distinct)
  have r: "distinct (map Name (Players (stats (removePlayer n s))))" for n
    using assms by (simp add: removePlayer_def Let_def removeFirst_distinct)
  have u: "distinct (map Name (Players (stats (updatePlayerIP n x s))))"
          "distinct (map Name (Players (stats (updatePlayerUUID n x s))))" for n x
    using assms by (simp_all add: updatePlayerIP_def updatePlayerUUID_def updateFirst_names)
  show ?thesis
    using assms a r u
    by (simp add: parseOutput_def Let_def addEvent_fields updateStatus_fields)
qed

text \<open>
  Claim C5. Let a line be classified as a join (it has no ready marker and the join pattern
  matches it with the name as its group), for a name that is in the registry. Then the
  registry and the player count are as before, and a PlayerJoin event has been appended to the
  event log and offered to the event channel. For every line: when the names of the registry
  are distinct before the line is classified, they are distinct after.
\<close>

theorem join_present_idempotent:
  "(\<not> MatchString doneRegex line \<and> FindStringSubmatch playerJoinRegex line = [whole, name]
      \<and> (\<exists>p\<in>set (Players (stats s)). Name p = name) \<longrightarrow>
      Players (stats (parseOutput line s)) = Players (stats s)
      \<and> PlayerCount (stats (parseOutput line s)) = PlayerCount (stats s)
      \<and> RecentEvents (stats (parseOutput line s))
          = trimEvents (RecentEvents (stats s)
              @ [\<lparr>Time = clock s, Type = EventPlayerJoin, Message = name @ '' joined the game''\<rparr>])
      \<and> last (RecentEvents (stats (parseOutput line s)))
          = \<lparr>Time = clock s, Type = EventPlayerJoin, Message = name @ '' joined the game''\<rparr>
      \<and> eventChan (parseOutput line s)
          = trySend eventChanCap
              \<lparr>Time = clock s, Type = EventPlayerJoin, Message = name @ '' joined the game''\<rparr> (eventChan s))
   \<and> (distinct (map Name (Players (stats s))) \<longrightarrow>
        distinct (map Name (Players (stats (parseOutput line' s)))))"
proof (intro conjI impI)
  assume d: "distinct (map Name (Players (stats s)))"
  then show "distinct (map Name (Players (stats (parseOutput line' s))))"
    by (rule parseOutput_distinct)
next
  assume a: "\<not> MatchString doneRegex line \<and> FindStringSubmatch playerJoinRegex line = [whole, name]
      \<and> (\<exists>p\<in>set (Players (stats s)). Name p = name)"
  then have p: "parseOutput line s = addEvent EventPlayerJoin (name @ '' joined the game'') s"
    using parseOutput_join[of line whole name s] addPlayer_present[of s name] by simp
  show "Players (stats (parseOutput line s)) = Players (stats s)"
    by (simp add: p addEvent_fields)
  show "PlayerCount (stats (parseOutput line s)) = PlayerCount (stats s)"
    by (simp add: p addEvent_fields)
  show "RecentEvents (stats (parseOutput line s))
          = trimEvents (RecentEvents (stats s)
              @ [\<lparr>Time = clock s, Type = EventPlayerJoin, Message = name @ '' joined the game''\<rparr>])"
    by (simp add: p addEvent_fields)
  then show "last (RecentEvents (stats (parseOutput line s)))
          = \<lparr>Time = clock s, Type = EventPlayerJoin, Message = name @ '' joined the game''\<rparr>"
    by (simp add: trimEvents_last)
  show "eventChan (parseOutput line s)
          = trySend eventChanCap
              \<lparr>Time = clock s, Type = EventPlayerJoin, Message = name @ '' joined the game''\<rparr> (eventChan s)"
    by (simp add: p addEvent_fields)
qed

lemma joinLine_match:
  "\<not> MatchString doneRegex joinLine"
  "FindStringSubmatch playerJoinRegex joinLine = [joinLine, ''Steve'']"
  by (simp_all add: joinLine_def re_defs)

lemma withSteve_players:
  "Players (stats withSteve) = [\<lparr>Name = ''Steve'', UUID = [], JoinedAt = 7, IPAddress = []\<rparr>]"
  unfolding withSteve_def parseOutput_join[OF joinLine_match]
  by (simp add: addEvent_fields addPlayer_def New_def)

theorem join_present_idempotent_witness:
  "Players (stats (parseOutput joinLine (withSteve\<lparr>clock := 9\<rparr>)))
     = [\<lparr>Name = ''Steve'', UUID = [], JoinedAt = 7, IPAddress = []\<rparr>]
   \<and> last (RecentEvents (stats (parseOutput joinLine (withSteve\<lparr>clock := 9\<rparr>))))
     = \<lparr>Time = 9, Type = EventPlayerJoin, Message = ''Steve joined the game''\<rparr>
   \<and> distinct (map Name (Players (stats (parseOutput joinLine (withSteve\<lparr>clock := 9\<rparr>)))))"
  using join_present_idempotent[of joinLine joinLine "''Steve''" "withSteve\<lparr>clock := 9\<rparr>" joinLine]
    joinLine_match withSteve_players
  by (simp add: trimEvents_last)

subsection \<open>Population reports\<close>

lemma atoiLoop_digits:
  "0 \<le> n \<Longrightarrow> \<forall>c\<in>set ds. isDigit c \<Longrightarrow>
   atoiLoop n ds = (int (foldl (\<lambda>n c. n * 10 + digitVal c) (nat n) ds), None)"
proof (induction ds arbitrary: n)
  case Nil then show ?case by simp
next
  case (Cons c cs)
  have eq: "nat (n * 10 + int (digitVal c)) = nat n * 10 + digitVal c"
    using Cons.prems(1) by (simp add: nat_add_distrib nat_mult_distrib)
  have nonneg: "0 \<le> n * 10 + int (digitVal c)"
    using Cons.prems(1) by simp
  have "atoiLoop n (c # cs) = atoiLoop (n * 10 + int (digitVal c)) cs"
    using Cons.prems(2) by simp
  also have "\<dots> = (int (foldl (\<lambda>n c. n * 10 + digitVal c) (nat (n * 10 + int (digitVal c))) cs), None)"
    using Cons.prems(2) by (intro Cons.IH[OF nonneg]) simp
  finally show ?case by (simp add: eq)
qed

lemma digit_not_sign: "isDigit c \<Longrightarrow> c \<noteq> CHR ''-'' \<and> c \<noteq> CHR ''+''"
  by (auto simp: isDigit_def)

lemma Atoi_digits:
  assumes "ds \<noteq> []" "\<forall>c\<in>set ds. isDigit c" "int (decValue ds) \<le> maxInt64"
  shows "Atoi ds = (int (decValue ds), None)"
proof -
  have hd: "hd ds \<noteq> CHR ''-'' \<and> hd ds \<noteq> CHR ''+''"
    using assms(1,2) digit_not_sign[of "hd ds"] by (cases ds) auto
  show ?thesis
  proof (cases "length ds < 19")
    case True
    have "atoiLoop 0 ds = (int (decValue ds), None)"
      using atoiLoop_digits[of 0 ds] assms(2) by (simp add: decValue_def)
    then show ?thesis using True hd assms(1) by (simp add: Atoi_def)
  next
    case False
    have le: "decValue ds \<le> maxUint64"
      using assms(3) by (simp add: maxInt64_def maxUint64_def)
    have pu: "ParseUint ds = (decValue ds, None)"
      using assms(1,2) le by (rule ParseUint_digits)
    have small: "\<not> decValue ds \<ge> 9223372036854775808"
      using assms(3) by (simp add: maxInt64_def)
    have "ParseInt ds = (int (decValue ds), None)"
      using assms(1) hd pu small by (simp add: ParseInt_def)
    then show ?thesis using False by (simp add: Atoi_def)
  qed
qed

lemma parseOutput_list:
  assumes "\<not> MatchString doneRegex line"
    and "length (FindStringSubmatch playerJoinRegex line) \<le> 1"
    and "length (FindStringSubmatch playerLeaveRegex line) \<le> 1"
    and "FindStringSubmatch playerListRegex line = [whole, x, y]"
  shows "parseOutput line s = s\<lparr>stats := (stats s)\<lparr>PlayerCount := fst (Atoi x), MaxPlayers := fst (Atoi y)\<rparr>\<rparr>"
  using assms by (simp add: parseOutput_def)

text \<open>
  Claim C9, as the code has it. Let a line be classified as a population report: it has no
  ready marker, the join and leave patterns do not match it, and the population pattern
  matches it with the digit strings \<open>x\<close> and \<open>y\<close> as its groups. When the numbers \<open>x\<close> and \<open>y\<close>
  denote fit a 64-bit \<open>int\<close>, classifying the line sets the player count to \<open>x\<close> and the
  maximum to \<open>y\<close> and changes nothing else: the snapshot reports the two counts, and the player
  list is the one before the line.
\<close>

theorem population_report_amended:
  "\<not> MatchString doneRegex line
   \<and> length (FindStringSubmatch playerJoinRegex line) \<le> 1
   \<and> length (FindStringSubmatch playerLeaveRegex line) \<le> 1
   \<and> FindStringSubmatch playerListRegex line = [whole, x, y]
   \<and> x \<noteq> [] \<and> (\<forall>c\<in>set x. isDigit c) \<and> int (decValue x) \<le> maxInt64
   \<and> y \<noteq> [] \<and> (\<forall>c\<in>set y. isDigit c) \<and> int (decValue y) \<le> maxInt64
   \<longrightarrow> parseOutput line s
         = s\<lparr>stats := (stats s)\<lparr>PlayerCount := int (decValue x), MaxPlayers := int (decValue y)\<rparr>\<rparr>
     \<and> PlayerCount (GetStats (parseOutput line s)) = int (decValue x)
     \<and> MaxPlayers (GetStats (parseOutput line s)) = int (decValue y)
     \<and> Players (GetStats (parseOutput line s)) = Players (stats s)"
proof (intro impI)
  assume a: "\<not> MatchString doneRegex line
   \<and> length (FindStringSubmatch playerJoinRegex line) \<le> 1
   \<and> length (FindStringSubmatch playerLeaveRegex line) \<le> 1
   \<and> FindStringSubmatch playerListRegex line = [whole, x, y]
   \<and> x \<noteq> [] \<and> (\<forall>c\<in>set x. isDigit c) \<and> int (decValue x) \<le> maxInt64
   \<and> y \<noteq> [] \<and> (\<forall>c\<in>set y. isDigit c) \<and> int (decValue y) \<le> maxInt64"
  have ax: "Atoi x = (int (decValue x), None)" using a by (intro Atoi_digits) simp_all
  have ay: "Atoi y = (int (decValue y), None)" using a by (intro Atoi_digits) simp_all
  have p: "parseOutput line s
         = s\<lparr>stats := (stats s)\<lparr>PlayerCount := int (decValue x), MaxPlayers := int (decValue y)\<rparr>\<rparr>"
    using parseOutput_list[of line whole x y s] a ax ay by simp
  show "parseOutput line s
         = s\<lparr>stats := (stats s)\<lparr>PlayerCount := int (decValue x), MaxPlayers := int (decValue y)\<rparr>\<rparr>
     \<and> PlayerCount (GetStats (parseOutput line s)) = int (decValue x)
     \<and> MaxPlayers (GetStats (parseOutput line s)) = int (decValue y)
     \<and> Players (GetStats (parseOutput line s)) = Players (stats s)"
    unfolding p by (simp add: GetStats_def)
qed

lemma listLine_match:
  "\<not> MatchString doneRegex listLine"
  "length (FindStringSubmatch playerJoinRegex listLine) \<le> 1"
  "length (FindStringSubmatch playerLeaveRegex listLine) \<le> 1"
  "FindStringSubmatch playerListRegex listLine = [listLine, ''3'', ''20'']"
  by (simp_all add: listLine_def re_defs)

theorem population_report_amended_witness:
  "PlayerCount (GetStats (parseOutput listLine withSteve)) = 3
   \<and> MaxPlayers (GetStats (parseOutput listLine withSteve)) = 20
   \<and> Players (GetStats (parseOutput listLine withSteve))
       = [\<lparr>Name = ''Steve'', UUID = [], JoinedAt = 7, IPAddress = []\<rparr>]"
  using population_report_amended[of listLine listLine "''3''" "''20''" withSteve]
    listLine_match withSteve_players
  by (simp add: isDigit_def decValue_def digitVal_def maxInt64_def GetStats_def)

lemma hugeListLine_match:
  "\<not> MatchString doneRegex hugeListLine"
  "length (FindStringSubmatch playerJoinRegex hugeListLine) \<le> 1"
  "length (FindStringSubmatch playerLeaveRegex hugeListLine) \<le> 1"
  "FindStringSubmatch playerListRegex hugeListLine = [hugeListLine, ''9223372036854775808'', ''20'']"
  by (simp_all add: hugeListLine_def re_defs)

text \<open>
  Claim C9 as stated fails for a count that does not fit a 64-bit \<open>int\<close>: \<open>Atoi\<close> returns
  the largest \<open>int\<close> with a range error, which \<open>parseOutput\<close> discards.
\<close>

theorem population_report_counterexample:
  "decValue ''9223372036854775808'' = 9223372036854775808
   \<and> PlayerCount (GetStats (parseOutput hugeListLine (New defaultConfig 0))) = 9223372036854775807
   \<and> PlayerCount (GetStats (parseOutput hugeListLine (New defaultConfig 0)))
       \<noteq> int (decValue ''9223372036854775808'')"
proof -
  have a: "fst (Atoi ''9223372036854775808'') = 9223372036854775807"
    by (simp add: Atoi_def ParseInt_def ParseUint_def isDigit_def digitVal_def maxUint64_def
        uint64_def maxInt64_def)
  have d: "decValue ''9223372036854775808'' = 9223372036854775808"
    by (simp add: decValue_def digitVal_def)
  show ?thesis
    unfolding parseOutput_list[OF hugeListLine_match]
    by (simp add: a d GetStats_def)
qed

section \<open>Properties of the lifecycle\<close>

lemma Sleep_fields:
  "config (Sleep d s) = config s"
  "cmd (Sleep d s) = cmd s"
  "stdin (Sleep d s) = stdin s"
  "stats (Sleep d s) = stats s"
  "outputChan (Sleep d s) = outputChan s"
  "eventChan (Sleep d s) = eventChan s"
  "backupMgr (Sleep d s) = backupMgr s"
  "clock (Sleep d s) = clock s + d"
  "launched (Sleep d s) = launched s"
  by (simp_all add: Sleep_def)


lemma foldl_addEvent_Restarts:
  "Restarts (stats (foldl (\<lambda>t (ty, msg). addEvent ty msg t) s evs)) = Restarts (stats s)"
  by (induction evs arbitrary: s) (auto simp: addEvent_fields)

lemma installModpack_Restarts:
  "Restarts (stats (fst (installModpack env s))) = Restarts (stats s)"
  by (simp add: installModpack_def Let_def addEvent_fields updateStatus_fields split: option.splits)

lemma copyLocalMods_Restarts:
  "Restarts (stats (fst (copyLocalMods env s))) = Restarts (stats s)"
  by (simp add: copyLocalMods_def foldl_addEvent_Restarts)

lemma spawn_Restarts:
  "Restarts (stats (fst (spawn env s))) = Restarts (stats s)"
  by (simp add: spawn_def Let_def addEvent_fields split: option.splits)

lemma installModpack_Restarts_rel:
  "installModpack env s = (s', e) \<Longrightarrow> Restarts (stats s') = Restarts (stats s)"
  using installModpack_Restarts[of env s] by simp

lemma copyLocalMods_Restarts_rel:
  "copyLocalMods env s = (s', e) \<Longrightarrow> Restarts (stats s') = Restarts (stats s)"
  using copyLocalMods_Restarts[of env s] by simp

lemma Start_Restarts:
  "Restarts (stats (fst (Start env s))) = Restarts (stats s)"
  by (auto simp: Start_def Let_def addEvent_fields updateStatus_fields spawn_Restarts
      split: option.splits sum.splits prod.splits if_splits
      dest!: installModpack_Restarts_rel copyLocalMods_Restarts_rel)

lemma Stop_noop:
  "Status (stats s) \<noteq> StatusRunning \<Longrightarrow> Status (stats s) \<noteq> StatusStarting \<Longrightarrow> Stop env s = (s, None)"
  by (simp add: Stop_def)

text \<open>
  Claim C10. Whatever \<open>Stop\<close> and \<open>Start\<close> meet, after \<open>Restart\<close> the restart counter is
  the counter before plus one (in 64-bit arithmetic), also when \<open>Restart\<close> returns an error.
\<close>

theorem Restart_increments_counter:
  "Restarts (stats (fst (Restart stopEnv startEnv s))) = Restarts (stats s) + 1"
proof -
  let ?s1 = "updateStatus StatusRestarting (addEvent EventRestart ''Restarting server...'' s)"
  let ?s2 = "?s1\<lparr>stats := (stats ?s1)\<lparr>Restarts := Restarts (stats ?s1) + 1\<rparr>\<rparr>"
  have st: "Status (stats ?s2) = StatusRestarting" by (simp add: updateStatus_fields)
  have stop: "Stop stopEnv ?s2 = (?s2, None)" by (rule Stop_noop) (simp_all add: updateStatus_fields)
  have r: "Restarts (stats (Sleep 2 ?s2)) = Restarts (stats s) + 1"
    by (simp add: Sleep_fields updateStatus_fields addEvent_fields)
  have "Restart stopEnv startEnv s = Start startEnv (Sleep 2 ?s2)"
    by (simp add: Restart_def Let_def stop)
  then show ?thesis by (simp add: Start_Restarts r)
qed

lemma doneLine_match: "MatchString doneRegex doneLine"
  by (simp add: doneLine_def re_defs)

lemma running_eq:
  "running = addEvent EventInfo ''Server started successfully!''
     (updateStatus StatusRunning (fst (Start startOK (New defaultConfig 0))))"
  by (simp add: running_def parseOutput_def doneLine_match)

lemma started_fields:
  "config (fst (Start startOK (New defaultConfig 0))) = defaultConfig"
  "cmd (fst (Start startOK (New defaultConfig 0)))
     = Some \<lparr>Dir = ''./server'', Proc = Some \<lparr>Pid = 4242, Killed = False\<rparr>\<rparr>"
  "stdin (fst (Start startOK (New defaultConfig 0))) = Some \<lparr>Broken = False, Written = []\<rparr>"
  "clock (fst (Start startOK (New defaultConfig 0))) = 0"
  "launched (fst (Start startOK (New defaultConfig 0)))
     = [GoReadOutput Stdout, GoReadOutput Stderr, GoMonitorProcess, GoUpdateStatsLoop, GoRequestTPSLoop]"
  "Restarts (stats (fst (Start startOK (New defaultConfig 0)))) = 0"
  "RecentEvents (stats (fst (Start startOK (New defaultConfig 0))))
     = [\<lparr>Time = 0, Type = EventInfo, Message = ''Server starting...''\<rparr>]"
  by (simp_all add: Start_def startOK_def New_def defaultConfig_def spawn_def copyLocalMods_def
      Let_def updateStatus_fields addEvent_fields trimEvents_def)

lemma running_fields:
  "config running = defaultConfig"
  "cmd running = Some \<lparr>Dir = ''./server'', Proc = Some \<lparr>Pid = 4242, Killed = False\<rparr>\<rparr>"
  "stdin running = Some \<lparr>Broken = False, Written = []\<rparr>"
  "clock running = 0"
  "launched running
     = [GoReadOutput Stdout, GoReadOutput Stderr, GoMonitorProcess, GoUpdateStatsLoop, GoRequestTPSLoop]"
  "Status (stats running) = StatusRunning"
  "Restarts (stats running) = 0"
  "RecentEvents (stats running)
     = [\<lparr>Time = 0, Type = EventInfo, Message = ''Server starting...''\<rparr>,
        \<lparr>Time = 0, Type = EventInfo, Message = ''Server started successfully!''\<rparr>]"
  by (simp_all add: running_eq addEvent_fields updateStatus_fields started_fields trimEvents_def)

theorem Restart_increments_counter_witness:
  "snd (Restart (quiet TimedOut) (startOK\<lparr>serverJar := Inl ''no server JAR found in ./server''\<rparr>) running)
     = Some ''failed to find server JAR: no server JAR found in ./server''
   \<and> Restarts (stats running) = 0
   \<and> Restarts (stats (fst (Restart (quiet TimedOut)
         (startOK\<lparr>serverJar := Inl ''no server JAR found in ./server''\<rparr>) running))) = 1"
  using Restart_increments_counter[of "quiet TimedOut"
      "startOK\<lparr>serverJar := Inl ''no server JAR found in ./server''\<rparr>" running]
  by (simp add: Restart_def Stop_def Start_def startOK_def Let_def updateStatus_fields addEvent_fields
      Sleep_fields copyLocalMods_def running_fields defaultConfig_def)

subsection \<open>The exit monitor\<close>

lemma trimEvents_keeps_suffix:
  assumes "length xs \<le> 100"
  shows "\<exists>pre. trimEvents (es @ xs) = pre @ xs"
proof (cases "length (es @ xs) > 100")
  case True
  with assms have "es \<noteq> []" by auto
  then have "tl (es @ xs) = tl es @ xs" by simp
  with True show ?thesis by (auto simp: trimEvents_def)
next
  case False
  then show ?thesis by (auto simp: trimEvents_def)
qed

lemma trimEvents_two:
  "\<exists>pre. trimEvents (trimEvents (es @ [a]) @ [b]) = pre @ [a, b]"
proof -
  obtain p1 where p1: "trimEvents (es @ [a]) = p1 @ [a]"
    using trimEvents_keeps_suffix[of "[a]" es] by auto
  obtain p2 where "trimEvents (p1 @ [a, b]) = p2 @ [a, b]"
    using trimEvents_keeps_suffix[of "[a, b]" p1] by auto
  then show ?thesis by (auto simp: p1)
qed

lemma monitorProcess_crash:
  assumes "cmd s \<noteq> None" "Status (stats s) \<noteq> StatusStopping"
  shows "monitorProcess (Some err) duringDelay s =
     (let s1 = addEvent EventError (''Server crashed: '' @ err) (updateStatus StatusCrashed s)
      in if AutoRestart (config s)
         then (let s3 = Sleep 5 (duringDelay (addEvent EventRestart ''Auto-restarting in 5 seconds...'' s1))
               in if Status (stats s3) = StatusCrashed
                  then s3\<lparr>launched := launched s3 @ [GoRestart]\<rparr> else s3)
         else s1)"
  using assms
  by (auto simp: monitorProcess_def Let_def addEvent_fields updateStatus_fields split: option.splits)

lemma monitorProcess_clean:
  assumes "cmd s \<noteq> None" "Status (stats s) \<noteq> StatusStopping"
  shows "monitorProcess None duringDelay s = updateStatus StatusStopped s"
  using assms by (auto simp: monitorProcess_def split: option.splits)

text \<open>
  Claim C2, as the code has it. Let the child exit while a command is attached and the status
  is not Stopping. If \<open>Wait\<close> returns an error (a non-zero exit status or a signal), the
  monitor sets the status to Crashed and logs an Error event "Server crashed: ..."; without
  auto-restart that is the state it leaves, with auto-restart (and nothing else touching the
  state during the delay) the status is still Crashed at the end and the Error event is followed
  by the Restart announcement. If the child exits cleanly (\<open>Wait\<close> returns no error), the
  monitor sets the status to Stopped and emits no event.
\<close>

theorem monitorProcess_unexpected_exit:
  "cmd s \<noteq> None \<and> Status (stats s) \<noteq> StatusStopping \<longrightarrow>
     (\<not> AutoRestart (config s) \<longrightarrow>
        Status (stats (monitorProcess (Some err) duringDelay s)) = StatusCrashed
        \<and> last (RecentEvents (stats (monitorProcess (Some err) duringDelay s)))
             = \<lparr>Time = clock s, Type = EventError, Message = ''Server crashed: '' @ err\<rparr>)
     \<and> (AutoRestart (config s) \<longrightarrow>
        Status (stats (monitorProcess (Some err) id s)) = StatusCrashed
        \<and> (\<exists>es. RecentEvents (stats (monitorProcess (Some err) id s))
               = es @ [\<lparr>Time = clock s, Type = EventError, Message = ''Server crashed: '' @ err\<rparr>,
                       \<lparr>Time = clock s, Type = EventRestart,
                          Message = ''Auto-restarting in 5 seconds...''\<rparr>]))
     \<and> Status (stats (monitorProcess None duringDelay s)) = StatusStopped
     \<and> RecentEvents (stats (monitorProcess None duringDelay s)) = RecentEvents (stats s)
     \<and> eventChan (monitorProcess None duringDelay s) = eventChan s"
proof (intro impI conjI)
  assume a: "cmd s \<noteq> None \<and> Status (stats s) \<noteq> StatusStopping"
  note crash = monitorProcess_crash[of s err, OF conjunct1[OF a] conjunct2[OF a]]
  note clean = monitorProcess_clean[of s duringDelay, OF conjunct1[OF a] conjunct2[OF a]]
  show "Status (stats (monitorProcess None duringDelay s)) = StatusStopped"
    by (simp add: clean updateStatus_fields)
  show "RecentEvents (stats (monitorProcess None duringDelay s)) = RecentEvents (stats s)"
    by (simp add: clean updateStatus_fields)
  show "eventChan (monitorProcess None duringDelay s) = eventChan s"
    by (simp add: clean updateStatus_fields)
  {
    assume n: "\<not> AutoRestart (config s)"
    show "Status (stats (monitorProcess (Some err) duringDelay s)) = StatusCrashed"
      using n by (simp add: crash Let_def addEvent_fields updateStatus_fields)
    show "last (RecentEvents (stats (monitorProcess (Some err) duringDelay s)))
             = \<lparr>Time = clock s, Type = EventError, Message = ''Server crashed: '' @ err\<rparr>"
      using n by (simp add: crash Let_def addEvent_fields updateStatus_fields trimEvents_last)
  }
  {
    assume y: "AutoRestart (config s)"
    show "Status (stats (monitorProcess (Some err) id s)) = StatusCrashed"
      using y by (simp add: crash Let_def addEvent_fields updateStatus_fields Sleep_fields)
    let ?e1 = "\<lparr>Time = clock s, Type = EventError, Message = ''Server crashed: '' @ err\<rparr>"
    let ?e2 = "\<lparr>Time = clock s, Type = EventRestart, Message = ''Auto-restarting in 5 seconds...''\<rparr>"
    have "RecentEvents (stats (monitorProcess (Some err) id s))
        = trimEvents (trimEvents (RecentEvents (stats s) @ [?e1]) @ [?e2])"
      using y by (simp add: crash Let_def addEvent_fields updateStatus_fields Sleep_fields)
    moreover have "\<exists>es. trimEvents (trimEvents (RecentEvents (stats s) @ [?e1]) @ [?e2]) = es @ [?e1, ?e2]"
      by (rule trimEvents_two)
    ultimately show "\<exists>es. RecentEvents (stats (monitorProcess (Some err) id s)) = es @ [?e1, ?e2]"
      by simp
  }
qed

theorem monitorProcess_unexpected_exit_witness:
  "Status (stats (monitorProcess (Some ''exit status 1'')
      id (running\<lparr>config := defaultConfig\<lparr>AutoRestart := False\<rparr>\<rparr>))) = StatusCrashed
   \<and> last (RecentEvents (stats (monitorProcess (Some ''exit status 1'')
      id (running\<lparr>config := defaultConfig\<lparr>AutoRestart := False\<rparr>\<rparr>))))
       = \<lparr>Time = 0, Type = EventError, Message = ''Server crashed: exit status 1''\<rparr>
   \<and> Status (stats (monitorProcess (Some ''exit status 1'') id running)) = StatusCrashed
   \<and> Status (stats (monitorProcess None id running)) = StatusStopped
   \<and> RecentEvents (stats (monitorProcess None id running)) = RecentEvents (stats running)"
  using monitorProcess_unexpected_exit[of "running\<lparr>config := defaultConfig\<lparr>AutoRestart := False\<rparr>\<rparr>"
      "''exit status 1''" id]
    monitorProcess_unexpected_exit[of running "''exit status 1''" id]
  by (simp add: running_fields defaultConfig_def)

text \<open>
  Claim C2 as stated fails for a clean exit: the server is running, the child exits with
  status 0, and the monitor sets the status to Stopped, not Crashed, and logs no Error event.
\<close>

theorem monitorProcess_clean_exit_counterexample:
  "Status (stats running) = StatusRunning
   \<and> Status (stats (monitorProcess None id running)) = StatusStopped
   \<and> Status (stats (monitorProcess None id running)) \<noteq> StatusCrashed
   \<and> RecentEvents (stats (monitorProcess None id running))
       = [\<lparr>Time = 0, Type = EventInfo, Message = ''Server starting...''\<rparr>,
          \<lparr>Time = 0, Type = EventInfo, Message = ''Server started successfully!''\<rparr>]"
  by (simp add: monitorProcess_def running_fields updateStatus_fields)




lemma SendCommand_ok:
  "stdin s = Some p \<Longrightarrow> \<not> Broken p \<Longrightarrow> c \<noteq> ''forge tps'' \<Longrightarrow>
   SendCommand c s = (addEvent EventCommand (''Executed: '' @ c)
                        (s\<lparr>stdin := Some (p\<lparr>Written := Written p @ [c @ [CHR 0x0A]]\<rparr>)\<rparr>), None)"
  by (simp add: SendCommand_def Fprintln_def)

lemma stopBody_result: "snd (stopBody env s) = None \<and> Status (stats (fst (stopBody env s))) = StatusStopped"
  by (simp add: stopBody_def Let_def updateStatus_fields)

lemma SendCommand_frame:
  "launched (fst (SendCommand c s)) = launched s"
  "cmd (fst (SendCommand c s)) = cmd s"
  "clock (fst (SendCommand c s)) = clock s"
  "Status (stats (fst (SendCommand c s))) = Status (stats s)"
  by (simp_all add: SendCommand_def Fprintln_def Let_def addEvent_fields split: option.splits)



text \<open>
  A \<open>Stop\<close> that is called during the delay finds the status Crashed and returns at once:
  only a \<open>Stop\<close> already past its guard can change the status in the window.
\<close>

lemma Stop_in_delay_window_is_noop:
  "Status (stats s) = StatusCrashed \<Longrightarrow> Stop env s = (s, None)"
  by (simp add: Stop_def)

subsection \<open>\<open>Stop\<close>\<close>

lemma trimEvents_four:
  "\<exists>pre. trimEvents (trimEvents (trimEvents (trimEvents (es @ [a]) @ [b]) @ [c]) @ [d]) = pre @ [a, b, c, d]"
proof -
  obtain p1 where p1: "trimEvents (es @ [a]) = p1 @ [a]"
    using trimEvents_keeps_suffix[of "[a]" es] by auto
  obtain p2 where p2: "trimEvents (p1 @ [a, b]) = p2 @ [a, b]"
    using trimEvents_keeps_suffix[of "[a, b]" p1] by auto
  obtain p3 where p3: "trimEvents (p2 @ [a, b, c]) = p3 @ [a, b, c]"
    using trimEvents_keeps_suffix[of "[a, b, c]" p2] by auto
  obtain p4 where p4: "trimEvents (p3 @ [a, b, c, d]) = p4 @ [a, b, c, d]"
    using trimEvents_keeps_suffix[of "[a, b, c, d]" p3] by auto
  show ?thesis by (auto simp: p1 p2 p3 p4)
qed

lemma stopBody_quiet_fields:
  assumes "stdin s = Some p" "\<not> Broken p" "cmd s = Some c" "Proc c = Some pr"
  shows "stdin (fst (stopBody (quiet r) s))
           = Some (p\<lparr>Written := Written p @ [''save-all'' @ [CHR 0x0A], ''stop'' @ [CHR 0x0A]]\<rparr>)"
    and "clock (fst (stopBody (quiet r) s)) = clock s + 2 + (case r of Exited w \<Rightarrow> w | TimedOut \<Rightarrow> 30)"
    and "cmd (fst (stopBody (quiet r) s))
           = (case r of Exited w \<Rightarrow> Some c | TimedOut \<Rightarrow> Some (c\<lparr>Proc := Some (pr\<lparr>Killed := True\<rparr>)\<rparr>))"
    and "RecentEvents (stats (fst (stopBody (quiet r) s)))
           = trimEvents (trimEvents (trimEvents (trimEvents (RecentEvents (stats s)
               @ [\<lparr>Time = clock s, Type = EventInfo, Message = ''Stopping server gracefully...''\<rparr>])
               @ [\<lparr>Time = clock s, Type = EventCommand, Message = ''Executed: save-all''\<rparr>])
               @ [\<lparr>Time = clock s + 2, Type = EventCommand, Message = ''Executed: stop''\<rparr>])
               @ [stopFinalEvent (clock s) r])"
  using assms
  by (simp_all add: stopBody_def Let_def quiet_def SendCommand_def Fprintln_def stopWait_def
      killProcess_def stopFinalEvent_def
      addEvent_fields updateStatus_fields Sleep_fields split: wait_result.splits)

lemma updateStatus_same: "Status (stats t) = st \<Longrightarrow> updateStatus st t = t"
  by (auto simp: updateStatus_def)

lemma stopBody_settle_in_Stopping:
  "stopBody (env\<lparr>duringSettle := \<lambda>t. duringSettle env (updateStatus StatusStopping t)\<rparr>) s
     = stopBody env s"
proof -
  let ?s1 = "addEvent EventInfo ''Stopping server gracefully...'' (updateStatus StatusStopping s)"
  let ?s2 = "case SendCommand ''save-all'' ?s1 of
               (t, Some err) \<Rightarrow> addEvent EventWarning ''Could not send save-all command'' t
             | (t, None) \<Rightarrow> t"
  have "Status (stats (fst (SendCommand ''save-all'' ?s1))) = StatusStopping"
    by (simp add: SendCommand_frame(4) addEvent_fields updateStatus_fields)
  then have "Status (stats ?s2) = StatusStopping"
    by (cases "SendCommand ''save-all'' ?s1") (simp add: addEvent_fields split: option.splits)
  then have key: "updateStatus StatusStopping ?s2 = ?s2"
    by (rule updateStatus_same)
  show ?thesis
    by (simp add: stopBody_def Let_def stopWait_def key cong: wait_result.case_cong option.case_cong)
qed

text \<open>
  Claim C6. When the status is neither Running nor Starting, \<open>Stop\<close> returns no error and
  the state as it was: no status change, nothing written. From Running or Starting, whatever
  the environment does, \<open>Stop\<close> ends with the status Stopped and no error, and the settle
  window begins in the status Stopping (forcing that status at the start of the window changes
  nothing). With a writable pipe, a spawned process and nothing else touching the state,
  \<open>save-all\<close> and then \<open>stop\<close> are written to the child, the log ends with the Stopping
  event, the first command at the same time, the second command two seconds later and the
  final event after the wait; the wait lasts as long as the exit takes, or 30 seconds when the
  timer fires first, and then, and only then, the process is killed.
\<close>

theorem Stop_contract:
  "(Status (stats s) \<noteq> StatusRunning \<and> Status (stats s) \<noteq> StatusStarting \<longrightarrow> Stop env s = (s, None))
   \<and> (Status (stats s) = StatusRunning \<or> Status (stats s) = StatusStarting \<longrightarrow>
        Status (stats (fst (Stop env s))) = StatusStopped \<and> snd (Stop env s) = None
        \<and> Stop (env\<lparr>duringSettle := \<lambda>t. duringSettle env (updateStatus StatusStopping t)\<rparr>) s
            = Stop env s)
   \<and> ((Status (stats s) = StatusRunning \<or> Status (stats s) = StatusStarting)
        \<and> stdin s = Some p \<and> \<not> Broken p \<and> cmd s = Some c \<and> Proc c = Some pr \<longrightarrow>
        stdin (fst (Stop (quiet r) s))
          = Some (p\<lparr>Written := Written p @ [''save-all'' @ [CHR 0x0A], ''stop'' @ [CHR 0x0A]]\<rparr>)
        \<and> (\<exists>pre. RecentEvents (stats (fst (Stop (quiet r) s)))
              = pre @ [\<lparr>Time = clock s, Type = EventInfo, Message = ''Stopping server gracefully...''\<rparr>,
                       \<lparr>Time = clock s, Type = EventCommand, Message = ''Executed: save-all''\<rparr>,
                       \<lparr>Time = clock s + 2, Type = EventCommand, Message = ''Executed: stop''\<rparr>,
                       stopFinalEvent (clock s) r])
        \<and> clock (fst (Stop (quiet r) s)) = clock s + 2 + (case r of Exited w \<Rightarrow> w | TimedOut \<Rightarrow> 30)
        \<and> cmd (fst (Stop (quiet r) s))
          = (case r of Exited w \<Rightarrow> Some c | TimedOut \<Rightarrow> Some (c\<lparr>Proc := Some (pr\<lparr>Killed := True\<rparr>)\<rparr>)))"
proof (intro conjI impI)
  assume "Status (stats s) \<noteq> StatusRunning \<and> Status (stats s) \<noteq> StatusStarting"
  then show "Stop env s = (s, None)" by (simp add: Stop_def)
next
  assume a: "Status (stats s) = StatusRunning \<or> Status (stats s) = StatusStarting"
  then have e: "Stop env' s = stopBody env' s" for env' by (auto simp: Stop_def)
  show "Status (stats (fst (Stop env s))) = StatusStopped" "snd (Stop env s) = None"
    by (simp_all add: e stopBody_result)
  show "Stop (env\<lparr>duringSettle := \<lambda>t. duringSettle env (updateStatus StatusStopping t)\<rparr>) s
            = Stop env s"
    unfolding e by (rule stopBody_settle_in_Stopping)
next
  assume a: "(Status (stats s) = StatusRunning \<or> Status (stats s) = StatusStarting)
        \<and> stdin s = Some p \<and> \<not> Broken p \<and> cmd s = Some c \<and> Proc c = Some pr"
  then have eq: "Stop (quiet r) s = stopBody (quiet r) s" by (auto simp: Stop_def)
  from a have h: "stdin s = Some p" "\<not> Broken p" "cmd s = Some c" "Proc c = Some pr" by simp_all
  show "stdin (fst (Stop (quiet r) s))
          = Some (p\<lparr>Written := Written p @ [''save-all'' @ [CHR 0x0A], ''stop'' @ [CHR 0x0A]]\<rparr>)"
    unfolding eq by (rule stopBody_quiet_fields(1)[OF h])
  show "clock (fst (Stop (quiet r) s)) = clock s + 2 + (case r of Exited w \<Rightarrow> w | TimedOut \<Rightarrow> 30)"
    unfolding eq by (rule stopBody_quiet_fields(2)[OF h])
  show "cmd (fst (Stop (quiet r) s))
          = (case r of Exited w \<Rightarrow> Some c | TimedOut \<Rightarrow> Some (c\<lparr>Proc := Some (pr\<lparr>Killed := True\<rparr>)\<rparr>))"
    unfolding eq by (rule stopBody_quiet_fields(3)[OF h])
  show "\<exists>pre. RecentEvents (stats (fst (Stop (quiet r) s)))
              = pre @ [\<lparr>Time = clock s, Type = EventInfo, Message = ''Stopping server gracefully...''\<rparr>,
                       \<lparr>Time = clock s, Type = EventCommand, Message = ''Executed: save-all''\<rparr>,
                       \<lparr>Time = clock s + 2, Type = EventCommand, Message = ''Executed: stop''\<rparr>,
                       stopFinalEvent (clock s) r]"
    unfolding eq stopBody_quiet_fields(4)[OF h] by (rule trimEvents_four)
qed

theorem Stop_contract_witness:
  "Stop (quiet TimedOut) (New defaultConfig 0) = (New defaultConfig 0, None)
   \<and> Status (stats (fst (Stop (quiet TimedOut) running))) = StatusStopped
   \<and> snd (Stop (quiet TimedOut) running) = None
   \<and> stdin (fst (Stop (quiet (Exited 3)) running))
       = Some \<lparr>Broken = False, Written = [''save-all'' @ [CHR 0x0A], ''stop'' @ [CHR 0x0A]]\<rparr>
   \<and> clock (fst (Stop (quiet (Exited 3)) running)) = 5
   \<and> cmd (fst (Stop (quiet (Exited 3)) running))
       = Some \<lparr>Dir = ''./server'', Proc = Some \<lparr>Pid = 4242, Killed = False\<rparr>\<rparr>
   \<and> clock (fst (Stop (quiet TimedOut) running)) = 32
   \<and> cmd (fst (Stop (quiet TimedOut) running))
       = Some \<lparr>Dir = ''./server'', Proc = Some \<lparr>Pid = 4242, Killed = True\<rparr>\<rparr>"
  using Stop_contract[of "New defaultConfig 0" "quiet TimedOut"]
    Stop_contract[of running "quiet TimedOut" "\<lparr>Broken = False, Written = []\<rparr>"
      "\<lparr>Dir = ''./server'', Proc = Some \<lparr>Pid = 4242, Killed = False\<rparr>\<rparr>" "\<lparr>Pid = 4242, Killed = False\<rparr>" "Exited 3"]
    Stop_contract[of running "quiet TimedOut" "\<lparr>Broken = False, Written = []\<rparr>"
      "\<lparr>Dir = ''./server'', Proc = Some \<lparr>Pid = 4242, Killed = False\<rparr>\<rparr>" "\<lparr>Pid = 4242, Killed = False\<rparr>" TimedOut]
  by (simp add: running_fields New_def)

section \<open>Properties of the backup engine\<close>

lemma archive_isArchive: "isArchive (archiveEntry env)"
  by (simp add: isArchive_def archiveEntry_def archiveName_def HasPrefix_def HasSuffix_def)

lemma writeFile_entry:
  "writeFile (archiveName env) (written env) (Some es)
     = Some (insort_key EntryName (archiveEntry env) (filter (\<lambda>e. EntryName e \<noteq> archiveName env) es))"
  by (simp add: writeFile_def archiveEntry_def)

lemma CreateBackup_success:
  assumes "CreateBackup env m d = (d', None)"
  shows "\<exists>r. cleanupOldBackups env m (writeFile (archiveName env) (written env) (mkdirAll d)) = (d', r)"
  using assms
  by (auto simp: CreateBackup_def Let_def
      split: option.splits sum.splits if_splits prod.splits cleanup_result.splits)

lemma foldl_Remove:
  "foldl (\<lambda>d' b. Remove (BackupPath b) d') (Some es) bs
     = Some (filter (\<lambda>e. EntryName e \<notin> snd ` BackupPath ` set bs) es)"
proof (induction bs arbitrary: es)
  case Nil
  show ?case by simp
next
  case (Cons b bs)
  have "foldl (\<lambda>d' b. Remove (BackupPath b) d') (Some es) (b # bs)
      = foldl (\<lambda>d' b. Remove (BackupPath b) d') (Some (filter (\<lambda>e. EntryName e \<noteq> snd (BackupPath b)) es)) bs"
    by (simp add: Remove_def)
  also have "\<dots> = Some (filter (\<lambda>e. EntryName e \<notin> snd ` BackupPath ` set bs)
                        (filter (\<lambda>e. EntryName e \<noteq> snd (BackupPath b)) es))"
    by (rule Cons.IH)
  also have "\<dots> = Some (filter (\<lambda>e. EntryName e \<notin> snd ` BackupPath ` set (b # bs)) es)"
    by (auto intro: filter_cong)
  finally show ?case .
qed

lemma cleanup_deletes_beyond_max:
  assumes "readDirErr env = None" "\<forall>p. removeErr env p = None" "0 \<le> maxBackups m"
  shows "cleanupOldBackups env m (Some es)
     = (Some (filter (\<lambda>e. EntryName e \<notin> BackupName `
                 set (drop (nat (maxBackups m)) (sortSlice After (map (backupInfo m) (filter isArchive es))))) es),
        CleanupDone)"
proof -
  let ?bs = "map (backupInfo m) (filter isArchive es)"
  have lb: "ListBackups (readDirErr env) m (Some es) = Inr ?bs"
    using assms(1) by (simp add: ListBackups_def)
  have len: "length (sortSlice After ?bs) = length ?bs"
  proof -
    have "length (foldl (\<lambda>rs x. sink After x rs) acc xs) = length acc + length xs" for acc xs
    proof (induction xs arbitrary: acc)
      case Nil show ?case by simp
    next
      case (Cons x xs)
      have "length (sink After x acc) = Suc (length acc)" for acc
        by (induction acc) auto
      then show ?case using Cons.IH[of "sink After x acc"] by simp
    qed
    then show ?thesis by (simp add: sortSlice_def)
  qed
  have names: "snd ` BackupPath ` set bs = BackupName ` set bs" if "set bs \<subseteq> set (sortSlice After ?bs)" for bs
  proof -
    have "set (foldl (\<lambda>rs x. sink After x rs) acc xs) = set acc \<union> set xs" for acc xs
    proof (induction xs arbitrary: acc)
      case Nil show ?case by simp
    next
      case (Cons x xs)
      have "set (sink After x acc) = insert x (set acc)" for acc
        by (induction acc) auto
      then show ?case using Cons.IH[of "sink After x acc"] by auto
    qed
    then have "set (sortSlice After ?bs) = set ?bs" by (simp add: sortSlice_def)
    with that have "\<forall>b\<in>set bs. snd (BackupPath b) = BackupName b"
      by (auto simp: backupInfo_def)
    then show ?thesis by (auto simp: image_iff)
  qed
  show ?thesis
  proof (cases "int (length ?bs) \<le> maxBackups m")
    case True
    then have "drop (nat (maxBackups m)) (sortSlice After ?bs) = []"
      using len by simp
    with True lb show ?thesis by (simp add: cleanupOldBackups_def)
  next
    case False
    let ?del = "drop (nat (maxBackups m)) (sortSlice After ?bs)"
    have f: "(\<lambda>d' b. case removeErr env (BackupPath b) of None \<Rightarrow> Remove (BackupPath b) d' | Some err \<Rightarrow> d')
        = (\<lambda>d' b. Remove (BackupPath b) d')"
      by (intro ext) (simp add: assms(2))
    have sub: "set ?del \<subseteq> set (sortSlice After ?bs)" by (rule set_drop_subset)
    show ?thesis
      using False lb assms(3)
      by (simp add: cleanupOldBackups_def Let_def f foldl_Remove names[OF sub])
  qed
qed


lemma ListBackups_Some: "ListBackups None m (Some es) = Inr (map (backupInfo m) (filter isArchive es))"
  by (simp add: ListBackups_def)

lemma sortSlice_three:
  assumes "After b a" "After c a" "After c b"
  shows "sortSlice After [a, b, c] = [c, b, a]"
  using assms by (simp add: sortSlice_def)

lemma cleanup_small:
  assumes "int (length (filter isArchive es)) \<le> maxBackups m"
  shows "fst (cleanupOldBackups env m (Some es)) = Some es"
  using assms
  by (simp add: cleanupOldBackups_def ListBackups_def split: option.splits)

lemma written_sorted:
  "sorted (map EntryName es) \<Longrightarrow>
   sorted (map EntryName (insort_key EntryName (archiveEntry env)
             (filter (\<lambda>e. EntryName e \<noteq> archiveName env) es)))"
  by (simp add: sorted_insort_key sorted_filter)

lemma written_archives:
  assumes "sorted (map EntryName es)"
  shows "filter isArchive (insort_key EntryName (archiveEntry env)
             (filter (\<lambda>e. EntryName e \<noteq> archiveName env) es))
     = insort_key EntryName (archiveEntry env)
         (filter (\<lambda>e. EntryName e \<noteq> archiveName env) (filter isArchive es))"
proof -
  have "sorted (map EntryName (filter (\<lambda>e. EntryName e \<noteq> archiveName env) es))"
    using assms by (rule sorted_filter)
  then have "filter isArchive (insort_key EntryName (archiveEntry env)
             (filter (\<lambda>e. EntryName e \<noteq> archiveName env) es))
      = insort_key EntryName (archiveEntry env)
          (filter isArchive (filter (\<lambda>e. EntryName e \<noteq> archiveName env) es))"
    by (rule filter_insort) (rule archive_isArchive)
  also have "filter isArchive (filter (\<lambda>e. EntryName e \<noteq> archiveName env) es)
      = filter (\<lambda>e. EntryName e \<noteq> archiveName env) (filter isArchive es)"
    by (simp add: conj_commute)
  finally show ?thesis .
qed

lemma three_backups:
  assumes m: "maxBackups m = 2"
    and d0: "d0 = None \<or> (\<exists>es. d0 = Some es \<and> sorted (map EntryName es) \<and> filter isArchive es = [])"
    and c1: "CreateBackup e1 m d0 = (d1, None)"
    and c2: "CreateBackup e2 m d1 = (d2, None)"
    and c3: "CreateBackup e3 m d2 = (d3, None)"
    and n12: "archiveName e1 < archiveName e2" and n23: "archiveName e2 < archiveName e3"
    and t12: "snd (written e1) < snd (written e2)" and t23: "snd (written e2) < snd (written e3)"
    and rd: "readDirErr e3 = None" and rm: "\<forall>p. removeErr e3 p = None"
  shows "ListBackups None m d3 = Inr [backupInfo m (archiveEntry e2), backupInfo m (archiveEntry e3)]"
proof -
  have nm: "EntryName (archiveEntry e) = archiveName e" for e by (simp add: archiveEntry_def)
  have ne: "archiveName e1 \<noteq> archiveName e2" "archiveName e2 \<noteq> archiveName e3"
    "archiveName e1 \<noteq> archiveName e3" "archiveName e1 < archiveName e3"
    using n12 n23 by auto
  have le: "\<not> archiveName e2 \<le> archiveName e1" "\<not> archiveName e3 \<le> archiveName e2"
    "\<not> archiveName e3 \<le> archiveName e1"
    using n12 n23 by auto
  define W where "W env es = insort_key EntryName (archiveEntry env)
             (filter (\<lambda>e. EntryName e \<noteq> archiveName env) es)" for env es
  have Wsorted: "sorted (map EntryName (W env es))" if "sorted (map EntryName es)" for env es
    unfolding W_def using that by (rule written_sorted)
  have Warch: "filter isArchive (W env es) = insort_key EntryName (archiveEntry env)
         (filter (\<lambda>e. EntryName e \<noteq> archiveName env) (filter isArchive es))"
    if "sorted (map EntryName es)" for env es
    unfolding W_def using that by (rule written_archives)
  have wf: "writeFile (archiveName env) (written env) (Some es) = Some (W env es)" for env es
    by (simp add: W_def writeFile_entry)
  obtain es0 where md: "mkdirAll d0 = Some es0" and s0: "sorted (map EntryName es0)"
    and a0: "filter isArchive es0 = []"
    using d0 by (auto simp: mkdirAll_def)
  \<comment> \<open>first call\<close>
  let ?es1 = "W e1 es0"
  have s1: "sorted (map EntryName ?es1)" using s0 by (rule Wsorted)
  have a1: "filter isArchive ?es1 = [archiveEntry e1]"
    by (simp add: Warch[OF s0] a0)
  obtain r1 where "cleanupOldBackups e1 m (Some ?es1) = (d1, r1)"
    using CreateBackup_success[OF c1] md wf by auto
  then have d1: "d1 = Some ?es1"
    using cleanup_small[of ?es1 m e1] by (simp add: a1 m)
  \<comment> \<open>second call\<close>
  let ?es2 = "W e2 ?es1"
  have s2: "sorted (map EntryName ?es2)" using s1 by (rule Wsorted)
  have a2: "filter isArchive ?es2 = [archiveEntry e1, archiveEntry e2]"
    using ne le by (simp add: Warch[OF s1] a1 nm)
  obtain r2 where "cleanupOldBackups e2 m (Some ?es2) = (d2, r2)"
    using CreateBackup_success[OF c2] d1 wf by (auto simp: mkdirAll_def)
  then have d2: "d2 = Some ?es2"
    using cleanup_small[of ?es2 m e2] by (simp add: a2 m)
  \<comment> \<open>third call\<close>
  let ?es3 = "W e3 ?es2"
  have a3: "filter isArchive ?es3 = [archiveEntry e1, archiveEntry e2, archiveEntry e3]"
    using ne le by (simp add: Warch[OF s2] a2 nm)
  obtain r3 where cl: "cleanupOldBackups e3 m (Some ?es3) = (d3, r3)"
    using CreateBackup_success[OF c3] d2 wf by (auto simp: mkdirAll_def)
  have srt: "sortSlice After [backupInfo m (archiveEntry e1), backupInfo m (archiveEntry e2),
                backupInfo m (archiveEntry e3)]
      = [backupInfo m (archiveEntry e3), backupInfo m (archiveEntry e2), backupInfo m (archiveEntry e1)]"
    using t12 t23 by (intro sortSlice_three) (simp_all add: After_def backupInfo_def archiveEntry_def)
  have "cleanupOldBackups e3 m (Some ?es3)
      = (Some (filter (\<lambda>e. EntryName e \<notin> BackupName ` set (drop 2
                 [backupInfo m (archiveEntry e3), backupInfo m (archiveEntry e2),
                  backupInfo m (archiveEntry e1)])) ?es3), CleanupDone)"
    using cleanup_deletes_beyond_max[OF rd rm, of m ?es3]
    by (simp add: m a3 srt)
  also have "\<dots> = (Some (filter (\<lambda>e. EntryName e \<noteq> archiveName e1) ?es3), CleanupDone)"
    by (simp add: backupInfo_def nm)
  finally have d3: "d3 = Some (filter (\<lambda>e. EntryName e \<noteq> archiveName e1) ?es3)"
    using cl by simp
  have "filter isArchive (filter (\<lambda>e. EntryName e \<noteq> archiveName e1) ?es3)
      = filter (\<lambda>e. EntryName e \<noteq> archiveName e1) (filter isArchive ?es3)"
    by (simp add: conj_commute)
  also have "\<dots> = [archiveEntry e2, archiveEntry e3]"
    using ne by (simp add: a3 nm)
  finally show ?thesis by (simp add: d3 ListBackups_Some)
qed


text \<open>
  Claim C4, as the code has it. Whenever the cleanup can list the backup directory and remove
  files, and the maximum is not negative, it deletes exactly the entries whose archives come
  after the first \<open>maxBackups\<close> in the listing sorted newest first, and nothing else. Given
  a maximum of 2, a backup directory that is absent or holds no archive, and three successful
  \<open>CreateBackup\<close> calls whose archive names and modification times increase, where the
  cleanup of the third call can list the directory and remove files, \<open>ListBackups\<close> then
  returns exactly the archives of the second and the third call.
\<close>

theorem retention_keeps_newest:
  "(maxBackups m = 2
    \<and> (d0 = None \<or> (\<exists>es. d0 = Some es \<and> sorted (map EntryName es) \<and> filter isArchive es = []))
    \<and> CreateBackup e1 m d0 = (d1, None)
    \<and> CreateBackup e2 m d1 = (d2, None)
    \<and> CreateBackup e3 m d2 = (d3, None)
    \<and> archiveName e1 < archiveName e2 \<and> archiveName e2 < archiveName e3
    \<and> snd (written e1) < snd (written e2) \<and> snd (written e2) < snd (written e3)
    \<and> readDirErr e3 = None \<and> (\<forall>p. removeErr e3 p = None)
    \<longrightarrow> ListBackups None m d3 = Inr [backupInfo m (archiveEntry e2), backupInfo m (archiveEntry e3)])
   \<and> (readDirErr env = None \<and> (\<forall>p. removeErr env p = None) \<and> 0 \<le> maxBackups m
    \<longrightarrow> cleanupOldBackups env m (Some es')
         = (Some (filter (\<lambda>e. EntryName e \<notin> BackupName `
                     set (drop (nat (maxBackups m))
                            (sortSlice After (map (backupInfo m) (filter isArchive es'))))) es'),
            CleanupDone))"
  using three_backups[of m d0 e1 d1 e2 d2 e3 d3] cleanup_deletes_beyond_max[of env m es']
  by blast

lemmas backup_defs = CreateBackup_def cleanupOldBackups_def ListBackups_def findWorldDirs_def
  isWorldDir_def mkdirAll_def writeFile_def archiveName_def archiveEntry_def backupOK_def keepTwo_def
  NewManager_def isArchive_def HasPrefix_def HasSuffix_def backupInfo_def sortSlice_def After_def
  Remove_def firstBackup_def secondBackup_def thirdBackup_def thirdBackupLocked_def Let_def

lemma backup_run:
  "CreateBackup firstBackup keepTwo None = (Some [archiveEntry firstBackup], None)"
  "CreateBackup secondBackup keepTwo (Some [archiveEntry firstBackup])
     = (Some [archiveEntry firstBackup, archiveEntry secondBackup], None)"
  "CreateBackup thirdBackup keepTwo (Some [archiveEntry firstBackup, archiveEntry secondBackup])
     = (Some [archiveEntry secondBackup, archiveEntry thirdBackup], None)"
  by (simp_all add: backup_defs)

theorem retention_keeps_newest_witness:
  "ListBackups None keepTwo (Some [archiveEntry secondBackup, archiveEntry thirdBackup])
     = Inr [backupInfo keepTwo (archiveEntry secondBackup), backupInfo keepTwo (archiveEntry thirdBackup)]
   \<and> cleanupOldBackups thirdBackup keepTwo
        (Some [archiveEntry firstBackup, archiveEntry secondBackup, archiveEntry thirdBackup])
     = (Some [archiveEntry secondBackup, archiveEntry thirdBackup], CleanupDone)"
proof -
  have h: "archiveName firstBackup < archiveName secondBackup"
    "archiveName secondBackup < archiveName thirdBackup"
    "snd (written firstBackup) < snd (written secondBackup)"
    "snd (written secondBackup) < snd (written thirdBackup)"
    "readDirErr thirdBackup = None" "\<forall>p. removeErr thirdBackup p = None"
    "maxBackups keepTwo = 2"
    by (simp_all add: archiveName_def firstBackup_def secondBackup_def thirdBackup_def backupOK_def
        keepTwo_def NewManager_def)
  have srt: "sortSlice After (map (backupInfo keepTwo) (filter isArchive
               [archiveEntry firstBackup, archiveEntry secondBackup, archiveEntry thirdBackup]))
     = [backupInfo keepTwo (archiveEntry thirdBackup), backupInfo keepTwo (archiveEntry secondBackup),
        backupInfo keepTwo (archiveEntry firstBackup)]"
    by (simp add: backup_defs)
  show ?thesis
    using retention_keeps_newest[of keepTwo None firstBackup "Some [archiveEntry firstBackup]"
        secondBackup "Some [archiveEntry firstBackup, archiveEntry secondBackup]" thirdBackup
        "Some [archiveEntry secondBackup, archiveEntry thirdBackup]" thirdBackup
        "[archiveEntry firstBackup, archiveEntry secondBackup, archiveEntry thirdBackup]"]
      backup_run h
    by (simp add: srt) (simp add: backup_defs)
qed

text \<open>
  Claim C4 as stated fails when a removal fails: the three calls succeed (the third logs the
  failed removal and returns no error), and \<open>ListBackups\<close> returns three archives.
\<close>

theorem retention_removal_fails_counterexample:
  "CreateBackup firstBackup keepTwo None = (Some [archiveEntry firstBackup], None)
   \<and> CreateBackup secondBackup keepTwo (Some [archiveEntry firstBackup])
       = (Some [archiveEntry firstBackup, archiveEntry secondBackup], None)
   \<and> CreateBackup thirdBackupLocked keepTwo (Some [archiveEntry firstBackup, archiveEntry secondBackup])
       = (Some [archiveEntry firstBackup, archiveEntry secondBackup, archiveEntry thirdBackupLocked], None)
   \<and> ListBackups None keepTwo
        (Some [archiveEntry firstBackup, archiveEntry secondBackup, archiveEntry thirdBackupLocked])
       = Inr [backupInfo keepTwo (archiveEntry firstBackup), backupInfo keepTwo (archiveEntry secondBackup),
              backupInfo keepTwo (archiveEntry thirdBackupLocked)]
   \<and> ListBackups None keepTwo
        (Some [archiveEntry firstBackup, archiveEntry secondBackup, archiveEntry thirdBackupLocked])
       \<noteq> Inr [backupInfo keepTwo (archiveEntry secondBackup),
               backupInfo keepTwo (archiveEntry thirdBackupLocked)]"
  by (simp add: backup_defs)

end
